theory Spec2Isabelle
  imports Main "HOL-Library.AList"
begin

section \<open>Strings\<close>

text \<open>
  A source string is modelled as a \<^typ>\<open>string\<close>; a \<^typ>\<open>char\<close> stands for one code unit
  in the range 0..255. The three string methods the services use are written out:
  \<open>trim\<close>, \<open>startsWith\<close>/\<open>slice\<close> and \<open>toLowerCase\<close>.
\<close>

definition isWhiteSpace :: "char \<Rightarrow> bool" where
  \<comment> \<open>the white space and line terminators that \<open>String.prototype.trim\<close> strips (TAB, LF, VT, FF, CR, SP, NBSP)\<close>
  "isWhiteSpace c = ((of_char c :: nat) \<in> {9, 10, 11, 12, 13, 32, 160})"

definition trim :: "string \<Rightarrow> string" where
  "trim s = rev (dropWhile isWhiteSpace (rev (dropWhile isWhiteSpace s)))"

definition startsWith :: "string \<Rightarrow> string \<Rightarrow> bool" where
  "startsWith s p = (take (length p) s = p)"

definition toLowerChar :: "char \<Rightarrow> char" where
  \<comment> \<open>A..Z and the upper-case letters of the range 192..222 (not the sign 215) move up by 32\<close>
  "toLowerChar c =
     (let n = (of_char c :: nat)
      in if (65 \<le> n \<and> n \<le> 90) \<or> (192 \<le> n \<and> n \<le> 222 \<and> n \<noteq> 215)
         then char_of (n + 32) else c)"

definition toLowerCase :: "string \<Rightarrow> string" where
  "toLowerCase s = map toLowerChar s"

fun join :: "string \<Rightarrow> string list \<Rightarrow> string" where
  "join sep [] = []"
| "join sep [x] = x"
| "join sep (x # y # ys) = x @ sep @ join sep (y # ys)"

section \<open>Errors\<close>

text \<open>
  Every \<open>throw\<close> of the services is a value. \<open>utils/errors\<close> declares the classes
  \<open>NotFoundError\<close>, \<open>ValidationError\<close> and \<open>PaymentGatewayError\<close> (message and optional provider
  code); the auth service throws the plain \<open>Error\<close> with a message, the runtime raises
  \<open>TypeError\<close> on a call of something that is not a function, and the store's client
  refuses an argument that is an Invalid Date with its \<open>PrismaClientValidationError\<close>.
\<close>

datatype error =
    NotFoundError string
  | ValidationError string
  | PaymentGatewayError string "int option"
  | Error string
  | TypeError string
  | PrismaClientValidationError string

section \<open>Gateway registry (gateways/index.ts)\<close>

datatype gateway = ZarinpalGateway | MockGateway | ZibalGateway

text \<open>
  \<open>gatewayRegistry\<close> is an object literal with the own keys \<open>zarinpal\<close> and \<open>mock\<close>. A property
  read \<open>gatewayRegistry[k]\<close> finds an own property first and a property inherited from
  \<open>Object.prototype\<close> otherwise. The key is lower-cased before the read, so of the inherited
  names only those without an upper-case letter can be hit: \<open>constructor\<close> (the function
  \<open>Object\<close>, which called with no argument returns a fresh empty object) and \<open>__proto__\<close>
  (the prototype object itself, which is not callable).
\<close>

definition gatewayRegistry :: "(string \<times> gateway) list" where
  "gatewayRegistry = [(''zarinpal'', ZarinpalGateway), (''mock'', MockGateway)]"

datatype registry_value = GatewayFactory gateway | ObjectConstructor | ObjectPrototype

definition inheritedProperties :: "(string \<times> registry_value) list" where
  "inheritedProperties = [(''constructor'', ObjectConstructor), (''__proto__'', ObjectPrototype)]"

definition registryGet :: "string \<Rightarrow> registry_value option" where
  "registryGet k =
     (case map_of gatewayRegistry k of
        Some g \<Rightarrow> Some (GatewayFactory g)
      | None \<Rightarrow> map_of inheritedProperties k)"

text \<open>What the call \<open>gatewayFactory()\<close> hands back: an adapter, or the empty object of \<open>Object()\<close>.\<close>

datatype resolved = Adapter gateway | EmptyObject

definition getSupportedGateways :: "string list" where
  "getSupportedGateways = map fst gatewayRegistry"

definition unsupportedMessage :: "string \<Rightarrow> string" where
  "unsupportedMessage gatewayName =
     ''Payment gateway '' @ [CHR 0x27] @ gatewayName @ [CHR 0x27] @
     '' is not supported. Available gateways: '' @ join '', '' (map fst gatewayRegistry)"

definition getPaymentGateway :: "string \<Rightarrow> error + resolved" where
  "getPaymentGateway gatewayName =
     (case registryGet (toLowerCase gatewayName) of
        None \<Rightarrow> Inl (ValidationError (unsupportedMessage gatewayName))
      | Some (GatewayFactory g) \<Rightarrow> Inr (Adapter g)
      | Some ObjectConstructor \<Rightarrow> Inr EmptyObject
      | Some ObjectPrototype \<Rightarrow> Inl (TypeError ''gatewayFactory is not a function''))"

section \<open>Phone normalisation (auth.service.ts)\<close>

definition normalizePhone :: "string \<Rightarrow> string" where
  "normalizePhone phone =
     (let p = trim phone in if startsWith p ''+98'' then ''0'' @ drop 3 p else p)"

section \<open>Numbers as text\<close>

definition digitChar :: "nat \<Rightarrow> char" where
  \<comment> \<open>only ever applied to a digit value below 10\<close>
  "digitChar d = ''0123456789'' ! d"

fun showNat :: "nat \<Rightarrow> string" where
  "showNat n = (if n < 10 then [digitChar n] else showNat (n div 10) @ [digitChar (n mod 10)])"

declare showNat.simps [simp del]

text \<open>
  \<open>Number.prototype.toString\<close> prints every digit of an integer whose magnitude is below
  \<open>10^21\<close>, and \<open>showInt\<close> is that text. From \<open>10^21\<close> on the source prints exponent
  notation, which \<open>showInt\<close> does not reproduce: a general statement about the text of a
  provider's number carries the bound \<open>printsAllDigits\<close> as a hypothesis. Clock readings
  are far below the bound.
\<close>

definition showInt :: "int \<Rightarrow> string" where
  "showInt i = (if i < 0 then ''-'' @ showNat (nat (- i)) else showNat (nat i))"

definition printsAllDigits :: "int \<Rightarrow> bool" where
  "printsAllDigits i = (abs i < 10 ^ 21)"

definition orElse :: "string \<Rightarrow> string \<Rightarrow> string" where
  \<comment> \<open>\<open>a || b\<close> on strings: the empty string is falsy\<close>
  "orElse a b = (if a = [] then b else a)"

definition orElseOpt :: "string option \<Rightarrow> string \<Rightarrow> string" where
  \<comment> \<open>\<open>a || b\<close> where \<open>a\<close> may be undefined\<close>
  "orElseOpt a b = (case a of None \<Rightarrow> b | Some x \<Rightarrow> orElse x b)"

section \<open>Gateway adapters: verifyPayment\<close>

record verify_request =
  vr_authority :: string
  vr_amount :: int

record verify_response =
  refId :: "string option"
  cardPan :: "string option"
  cardHash :: "string option"
  feeType :: "string option"
  fee :: "int option"

text \<open>
  The outcome of one \<open>axios.post\<close>: the promise rejects, or reading the body throws (with the
  provider message found in the error's response body, if any, and the error's own message),
  or it resolves with a body of the declared shape.
\<close>

datatype 'a http = Rejected "string option" string | Response 'a

definition wrapRejected :: "string option \<Rightarrow> string \<Rightarrow> error" where
  \<comment> \<open>the \<open>catch\<close> of both adapters, for an error that is not a PaymentGatewayError\<close>
  "wrapRejected bodyMessage errMessage =
     PaymentGatewayError (orElseOpt bodyMessage (orElse errMessage ''Payment verification failed'')) None"

record zarinpal_data =
  z_code :: int
  z_message :: string
  card_hash :: string
  card_pan :: string
  ref_id :: "int option"
  fee_type :: string
  zfee :: int

definition zarinpalVerifyPayment :: "zarinpal_data http \<Rightarrow> error + verify_response" where
  "zarinpalVerifyPayment r =
     (case r of
        Rejected b m \<Rightarrow> Inl (wrapRejected b m)
      | Response d \<Rightarrow>
          if z_code d \<noteq> 100 \<and> z_code d \<noteq> 101
          then Inl (PaymentGatewayError (orElse (z_message d) ''Payment verification failed'') (Some (z_code d)))
          else Inr \<lparr>refId = map_option showInt (ref_id d), cardPan = Some (card_pan d),
                    cardHash = Some (card_hash d), feeType = Some (fee_type d), fee = Some (zfee d)\<rparr>)"

record zibal_data =
  zb_result :: int
  zb_message :: "string option"
  zb_refNumber :: "int option"
  zb_cardNumber :: "string option"

definition zibalVerifyPayment :: "zibal_data option http \<Rightarrow> error + verify_response" where
  \<comment> \<open>the body is \<open>any\<close>: \<open>None\<close> is a null or empty body\<close>
  "zibalVerifyPayment r =
     (case r of
        Rejected b m \<Rightarrow> Inl (wrapRejected b m)
      | Response None \<Rightarrow> Inl (PaymentGatewayError ''Payment verification failed'' None)
      | Response (Some d) \<Rightarrow>
          if zb_result d \<noteq> 100
          then Inl (PaymentGatewayError (orElseOpt (zb_message d) ''Payment verification failed'') (Some (zb_result d)))
          else Inr \<lparr>refId = Some (case zb_refNumber d of None \<Rightarrow> [] | Some n \<Rightarrow> if n = 0 then [] else showInt n),
                    cardPan = zb_cardNumber d, cardHash = None, feeType = None, fee = None\<rparr>)"

definition mockVerifyPayment :: "int \<Rightarrow> error + verify_response" where
  \<comment> \<open>the argument is the reading of \<open>Date.now()\<close>\<close>
  "mockVerifyPayment now =
     Inr \<lparr>refId = Some (''REF-'' @ showInt now), cardPan = Some ''1234-5678-****-****'',
          cardHash = Some ''mock-hash'', feeType = Some ''fixed'', fee = Some 0\<rparr>"

text \<open>
  What the outside world answers during one call of the payment service: the providers'
  replies to the verify request, and the clock readings in the order they are taken.
\<close>

record world =
  zarinpalVerify :: "verify_request \<Rightarrow> zarinpal_data http"
  zibalVerify :: "verify_request \<Rightarrow> zibal_data option http"
  mockNow :: int
  paidNow :: int
  verifiedNow :: int

definition adapterVerifyPayment :: "world \<Rightarrow> gateway \<Rightarrow> verify_request \<Rightarrow> error + verify_response" where
  "adapterVerifyPayment w g req =
     (case g of
        ZarinpalGateway \<Rightarrow> zarinpalVerifyPayment (zarinpalVerify w req)
      | MockGateway \<Rightarrow> mockVerifyPayment (mockNow w)
      | ZibalGateway \<Rightarrow> zibalVerifyPayment (zibalVerify w req))"

section \<open>The relational store\<close>

text \<open>
  The store is modelled as always reachable: a Prisma call fails only where the source
  itself tests for an absent row. A table whose rows are found by a query (payments, one-time
  codes, users) is the list of its rows in insertion order, and a row's primary key is its
  position, so \<open>update({where: {id}})\<close> is a list update at that position. Tables read by key
  only (plans, subscriptions) are maps from the key.
\<close>

datatype payment_status = PENDING | COMPLETED | FAILED

datatype subscription_status = S_PENDING | ACTIVE | EXPIRED | CANCELLED

datatype jvalue = JString string | JNumber int

text \<open>
  The \<open>metadata\<close> column holds JSON text written by \<open>JSON.stringify\<close>; it is modelled by the
  object it denotes, a list of key/value pairs in property order (\<open>None\<close> is the null column).
\<close>

type_synonym json_object = "(string \<times> jvalue) list"

definition setField :: "string \<Rightarrow> jvalue option \<Rightarrow> json_object \<Rightarrow> json_object" where
  \<comment> \<open>one property of an object literal after a spread; \<open>JSON.stringify\<close> then drops an undefined value\<close>
  "setField k v obj =
     (case v of None \<Rightarrow> filter (\<lambda>kv. fst kv \<noteq> k) obj | Some x \<Rightarrow> AList.update k x obj)"

record payment =
  p_subscriptionId :: string
  p_amount :: int
  p_currency :: string
  p_gateway :: string
  p_authority :: "string option"
  p_paymentUrl :: "string option"
  p_status :: payment_status
  p_gatewayTxId :: "string option"
  p_paidAt :: "int option"
  p_verifiedAt :: "int option"
  p_metadata :: "json_object option"
  p_userEmail :: "string option"
  p_userPhone :: "string option"
  p_notificationSent :: bool
  p_createdAt :: int

record plan =
  pl_name :: string
  pl_price :: int
  pl_currency :: string
  pl_duration :: int
  pl_isActive :: bool

record subscription =
  s_userId :: string
  s_planId :: string
  s_status :: subscription_status
  s_autoRenew :: bool
  s_startDate :: "int option"
  s_endDate :: "int option"

text \<open>
  \<open>verifyCalls\<close> is not a table: it records every invocation of an adapter's \<open>verifyPayment\<close>,
  the way a test counts the calls of a mock gateway.
\<close>

record db =
  plans :: "string \<rightharpoonup> plan"
  subscriptions :: "string \<rightharpoonup> subscription"
  payments :: "payment list"
  verifyCalls :: "verify_request list"

fun findFirstIndex :: "('a \<Rightarrow> bool) \<Rightarrow> 'a list \<Rightarrow> nat option" where
  "findFirstIndex P [] = None"
| "findFirstIndex P (x # xs) = (if P x then Some 0 else map_option Suc (findFirstIndex P xs))"

section \<open>PaymentService (payment.service.ts)\<close>

definition isFailureStatus :: "string option \<Rightarrow> bool" where
  \<comment> \<open>\<open>status === 'NOK' || status === 'cancel'\<close>\<close>
  "isFailureStatus status = (status = Some ''NOK'' \<or> status = Some ''cancel'')"

definition mergeMetadata :: "json_object option \<Rightarrow> verify_response \<Rightarrow> json_object" where
  "mergeMetadata existing r =
     (let existingMetadata = (case existing of None \<Rightarrow> [] | Some m \<Rightarrow> m)
      in setField ''fee'' (map_option JNumber (fee r))
          (setField ''feeType'' (map_option JString (feeType r))
            (setField ''cardHash'' (map_option JString (cardHash r))
              (setField ''cardPan'' (map_option JString (cardPan r))
                (setField ''refId'' (map_option JString (refId r)) existingMetadata)))))"

definition markFailed :: "nat \<Rightarrow> db \<Rightarrow> db" where
  \<comment> \<open>\<open>prisma.payment.update({where: {id}, data: {status: FAILED}})\<close>\<close>
  "markFailed i s = s\<lparr>payments := (payments s)[i := (payments s ! i)\<lparr>p_status := FAILED\<rparr>]\<rparr>"

definition verifyPayment ::
  "world \<Rightarrow> string \<Rightarrow> string option \<Rightarrow> db \<Rightarrow> (error + nat \<times> payment) \<times> db" where
  "verifyPayment w authority status s =
     (case findFirstIndex (\<lambda>p. p_authority p = Some authority) (payments s) of
        None \<Rightarrow> (Inl (NotFoundError ''Payment''), s)
      | Some i \<Rightarrow>
          let payment = payments s ! i in
          if isFailureStatus status
          then (Inl (PaymentGatewayError ''Payment was cancelled or failed'' None), markFailed i s)
          else if p_status payment = COMPLETED then (Inr (i, payment), s)
          else
            (case getPaymentGateway (p_gateway payment) of
               Inl e \<Rightarrow> (Inl e, s)
             | Inr EmptyObject \<Rightarrow>
                 (Inl (TypeError ''paymentGateway.verifyPayment is not a function''), markFailed i s)
             | Inr (Adapter g) \<Rightarrow>
                 let verifyRequest = \<lparr>vr_authority = authority, vr_amount = p_amount payment\<rparr>;
                     s1 = s\<lparr>verifyCalls := verifyCalls s @ [verifyRequest]\<rparr>
                 in (case adapterVerifyPayment w g verifyRequest of
                       Inl e \<Rightarrow> (Inl e, markFailed i s1)
                     | Inr verifyResponse \<Rightarrow>
                         let updatedPayment = payment
                               \<lparr>p_status := COMPLETED,
                                p_gatewayTxId := refId verifyResponse,
                                p_paidAt := Some (paidNow w),
                                p_verifiedAt := Some (verifiedNow w),
                                p_metadata := Some (mergeMetadata (p_metadata payment) verifyResponse)\<rparr>
                         in (Inr (i, updatedPayment), s1\<lparr>payments := (payments s1)[i := updatedPayment]\<rparr>))))"

record create_response =
  cr_paymentUrl :: string
  cr_authority :: string
  cr_gatewayTxId :: "string option"
  cr_message :: "string option"

text \<open>
  \<open>createPayment\<close>: the adapter's own \<open>createPayment\<close> is an outbound call, and its outcome
  (\<open>gatewayReply\<close>) and the store's timestamp of the new row are inputs. The plan row of a
  subscription exists by the foreign key; were it absent, reading \<open>subscription.plan.name\<close>
  would raise. The row returned is the one created, before \<open>notificationSent\<close> is set.
\<close>

definition createPayment ::
  "(error + create_response) \<Rightarrow> int \<Rightarrow> string \<Rightarrow> int \<Rightarrow> string \<Rightarrow> string option \<Rightarrow> string option \<Rightarrow> db
     \<Rightarrow> (error + nat \<times> payment) \<times> db" where
  "createPayment gatewayReply createdNow subscriptionId amount gatewayName userEmail userPhone s =
     (case subscriptions s subscriptionId of
        None \<Rightarrow> (Inl (NotFoundError ''Subscription''), s)
      | Some subscription \<Rightarrow>
          (case getPaymentGateway gatewayName of
             Inl e \<Rightarrow> (Inl e, s)
           | Inr paymentGateway \<Rightarrow>
               (case plans s (s_planId subscription) of
                  None \<Rightarrow> (Inl (TypeError ''subscription.plan is null''), s)
                | Some pl \<Rightarrow>
                    (case paymentGateway of
                       EmptyObject \<Rightarrow>
                         (Inl (TypeError ''paymentGateway.createPayment is not a function''), s)
                     | Adapter g \<Rightarrow>
                         (case gatewayReply of
                            Inl e \<Rightarrow> (Inl e, s)
                          | Inr gatewayResponse \<Rightarrow>
                              let payment =
                                    \<lparr>p_subscriptionId = subscriptionId, p_amount = amount,
                                     p_currency = pl_currency pl, p_gateway = gatewayName,
                                     p_authority = Some (cr_authority gatewayResponse),
                                     p_paymentUrl = Some (cr_paymentUrl gatewayResponse),
                                     p_status = PENDING, p_gatewayTxId = None, p_paidAt = None,
                                     p_verifiedAt = None,
                                     p_metadata = Some
                                       (setField ''message'' (map_option JString (cr_message gatewayResponse))
                                         (setField ''gatewayTxId''
                                           (map_option JString (cr_gatewayTxId gatewayResponse)) [])),
                                     p_userEmail = userEmail, p_userPhone = userPhone,
                                     p_notificationSent = False, p_createdAt = createdNow\<rparr>;
                                  i = length (payments s)
                              in (Inr (i, payment),
                                  s\<lparr>payments := payments s @ [payment\<lparr>p_notificationSent := True\<rparr>]\<rparr>))))))"

definition getPaymentByAuthority :: "string \<Rightarrow> db \<Rightarrow> (nat \<times> payment) option" where
  "getPaymentByAuthority authority s =
     map_option (\<lambda>i. (i, payments s ! i))
       (findFirstIndex (\<lambda>p. p_authority p = Some authority) (payments s))"

definition getPaymentsBySubscription :: "string \<Rightarrow> db \<Rightarrow> (nat \<times> payment) list" where
  \<comment> \<open>\<open>orderBy: {createdAt: 'desc'}\<close>\<close>
  "getPaymentsBySubscription subscriptionId s =
     rev (sort_key (\<lambda>ip. p_createdAt (snd ip))
       (filter (\<lambda>ip. p_subscriptionId (snd ip) = subscriptionId) (zip [0..<length (payments s)] (payments s))))"

text \<open>The four operations of the service, and the store after one of them.\<close>

datatype payment_op =
    CreatePayment "error + create_response" int string int string "string option" "string option"
  | VerifyPayment world string "string option"
  | GetPaymentByAuthority string
  | GetPaymentsBySubscription string

fun exec :: "payment_op \<Rightarrow> db \<Rightarrow> db" where
  "exec (CreatePayment reply t sid amount g email phone) s = snd (createPayment reply t sid amount g email phone s)"
| "exec (VerifyPayment w authority status) s = snd (verifyPayment w authority status s)"
| "exec (GetPaymentByAuthority authority) s = s"
| "exec (GetPaymentsBySubscription sid) s = s"

section \<open>SubscriptionService (subscription.service.ts)\<close>

text \<open>
  A \<open>Date\<close> is its time value, milliseconds since the epoch in UTC; \<open>getDate\<close> and \<open>setDate\<close>
  work on the calendar of the server's local time zone. The zone is a parameter, given by
  the two offsets the language uses: \<open>utcOffset t\<close> is the offset of local time from UTC at
  the instant \<open>t\<close>, and \<open>localOffset l\<close> is the offset taken for the local time value \<open>l\<close>
  when it is turned back into an instant.
\<close>

record zone =
  utcOffset :: "int \<Rightarrow> int"
  localOffset :: "int \<Rightarrow> int"

definition msPerDay :: int where
  "msPerDay = 86400000"

definition maxTimeValue :: int where
  \<comment> \<open>the largest magnitude of a time value; beyond it a \<open>Date\<close> is an Invalid Date\<close>
  "maxTimeValue = 8640000000000000"

text \<open>
  \<open>d.setDate(d.getDate() + n)\<close>: the local time of \<open>d\<close> keeps its time within the day and
  its day number moves by \<open>n\<close> (the day of the month plus \<open>n\<close>, counted from the first of the
  month of \<open>d\<close>); the result is turned back into an instant and clipped to the range of
  time values. \<open>None\<close> is the Invalid Date.
\<close>

definition setDatePlus :: "zone \<Rightarrow> int \<Rightarrow> int \<Rightarrow> int option" where
  "setDatePlus tz t n =
     (let local = t + utcOffset tz t;
          newDate = local + n * msPerDay;
          u = newDate - localOffset tz newDate
      in if abs u \<le> maxTimeValue then Some u else None)"

text \<open>
  \<open>activateSubscription\<close> reads the clock twice: \<open>startNow\<close> is the \<open>new Date()\<close> of \<open>startDate\<close>,
  \<open>endNow\<close> the \<open>new Date()\<close> that \<open>endDate\<close> starts from. An Invalid Date is refused by the
  store's client before anything is written. The notification, audit and webhook steps after
  the update catch the failures of their outbound calls and write no subscription row.
\<close>

definition activateSubscription ::
  "zone \<Rightarrow> int \<Rightarrow> int \<Rightarrow> string \<Rightarrow> db \<Rightarrow> (error + subscription) \<times> db" where
  "activateSubscription tz startNow endNow subscriptionId s =
     (case subscriptions s subscriptionId of
        None \<Rightarrow> (Inl (NotFoundError ''Subscription''), s)
      | Some subscription \<Rightarrow>
          (case plans s (s_planId subscription) of
             None \<Rightarrow> (Inl (TypeError ''subscription.plan is null''), s)
           | Some pl \<Rightarrow>
               let startDate = startNow in
               (case setDatePlus tz endNow (pl_duration pl) of
                  None \<Rightarrow> (Inl (PrismaClientValidationError ''Provided Date object is invalid''), s)
                | Some endDate \<Rightarrow>
                    let updatedSubscription = subscription
                          \<lparr>s_status := ACTIVE, s_startDate := Some startDate, s_endDate := Some endDate\<rparr>
                    in (Inr updatedSubscription,
                        s\<lparr>subscriptions := (subscriptions s)(subscriptionId \<mapsto> updatedSubscription)\<rparr>))))"

definition cancelSubscription :: "string \<Rightarrow> db \<Rightarrow> (error + subscription) \<times> db" where
  "cancelSubscription subscriptionId s =
     (case subscriptions s subscriptionId of
        None \<Rightarrow> (Inl (NotFoundError ''Subscription''), s)
      | Some subscription \<Rightarrow>
          let updated = subscription\<lparr>s_status := CANCELLED, s_autoRenew := False\<rparr>
          in (Inr updated, s\<lparr>subscriptions := (subscriptions s)(subscriptionId \<mapsto> updated)\<rparr>))"

section \<open>AuthService (auth.service.ts)\<close>

text \<open>
  \<open>env.AUTH\<close> is configuration declared outside the service; its values are parameters.
  \<open>hashCode\<close> (the SHA-256 hex digest, also used for the API key) is a parameter \<open>h\<close>: the
  service only ever compares digests for equality.
\<close>

record auth_config =
  RATE_LIMIT_WINDOW_SEC :: int
  RATE_LIMIT_MAX_REQUESTS :: int
  OTP_EXP_MIN :: int

record rate_entry =
  count :: int
  windowStart :: int

record otp_code =
  o_phone :: string
  codeHash :: string
  expiresAt :: int
  attempts :: int
  usedAt :: "int option"
  o_createdAt :: int

record user =
  u_phone :: "string option"
  u_role :: string

record api_key =
  k_userId :: nat
  k_hash :: string
  k_label :: string

record auth_state =
  rate :: "string \<rightharpoonup> rate_entry"
  otpCodes :: "otp_code list"
  users :: "user list"
  apiKeys :: "api_key list"

definition tooManyRequests :: error where
  "tooManyRequests = Error ''Too many OTP requests. Please wait and try again.''"

definition checkRateLimit ::
  "auth_config \<Rightarrow> int \<Rightarrow> string \<Rightarrow> (string \<rightharpoonup> rate_entry) \<Rightarrow> error + (string \<rightharpoonup> rate_entry)" where
  "checkRateLimit cfg now key r =
     (let windowMs = RATE_LIMIT_WINDOW_SEC cfg * 1000;
          maxReq = RATE_LIMIT_MAX_REQUESTS cfg
      in case r key of
           None \<Rightarrow> Inr (r(key \<mapsto> \<lparr>count = 1, windowStart = now\<rparr>))
         | Some entry \<Rightarrow>
             if now - windowStart entry > windowMs
             then Inr (r(key \<mapsto> \<lparr>count = 1, windowStart = now\<rparr>))
             else if count entry \<ge> maxReq then Inl tooManyRequests
             else Inr (r(key \<mapsto> entry\<lparr>count := count entry + 1\<rparr>)))"

text \<open>
  One call of \<open>requestOtp\<close> takes from outside: the clock read by the rate limiter, the clock
  read for the expiry, the store's creation timestamp of the new row, and the code that
  \<open>randCode\<close> drew. Sending the SMS swallows its failures and changes no state.
\<close>

record otp_request =
  rateNow :: int
  expiryNow :: int
  createdNow :: int
  randCode :: string

definition rateKey :: "string \<Rightarrow> string" where
  "rateKey phone = ''otp:'' @ phone"

definition requestOtp ::
  "auth_config \<Rightarrow> (string \<Rightarrow> string) \<Rightarrow> otp_request \<Rightarrow> string \<Rightarrow> auth_state \<Rightarrow> (error + unit) \<times> auth_state" where
  "requestOtp cfg h io rawPhone s =
     (let phone = normalizePhone rawPhone in
      case checkRateLimit cfg (rateNow io) (rateKey phone) (rate s) of
        Inl e \<Rightarrow> (Inl e, s)
      | Inr r \<Rightarrow>
          let code = randCode io;
              row = \<lparr>o_phone = phone, codeHash = h code,
                     expiresAt = expiryNow io + OTP_EXP_MIN cfg * 60000,
                     attempts = 0, usedAt = None, o_createdAt = createdNow io\<rparr>
          in (Inr (), s\<lparr>rate := r, otpCodes := otpCodes s @ [row]\<rparr>))"

text \<open>
  \<open>findFirst\<close> with \<open>orderBy: {createdAt: 'desc'}\<close>: of the rows that match, one with the
  greatest \<open>createdAt\<close>. Among rows of equal \<open>createdAt\<close> the store's order is not specified; the
  model takes the row inserted last.
\<close>

fun pickLatest :: "otp_code list \<Rightarrow> nat list \<Rightarrow> nat option" where
  "pickLatest rows [] = None"
| "pickLatest rows (i # is) =
     (case pickLatest rows is of
        None \<Rightarrow> Some i
      | Some j \<Rightarrow> if o_createdAt (rows ! j) \<ge> o_createdAt (rows ! i) then Some j else Some i)"

definition isLive :: "string \<Rightarrow> int \<Rightarrow> otp_code \<Rightarrow> bool" where
  \<comment> \<open>\<open>where: {phone, usedAt: null, expiresAt: {gt: now}}\<close>\<close>
  "isLive phone now r = (o_phone r = phone \<and> usedAt r = None \<and> expiresAt r > now)"

definition findLatestLive :: "string \<Rightarrow> int \<Rightarrow> otp_code list \<Rightarrow> nat option" where
  "findLatestLive phone now rows =
     pickLatest rows (filter (\<lambda>i. isLive phone now (rows ! i)) [0..<length rows])"

text \<open>
  One call of \<open>verifyOtp\<close> takes from outside: the clock of the query, the clock that stamps
  \<open>usedAt\<close>, and the 32 random bytes of the new API key as hex text.
\<close>

record otp_verify =
  queryNow :: int
  usedNow :: int
  apiKeyPlain :: string

definition verifyOtp ::
  "(string \<Rightarrow> string) \<Rightarrow> otp_verify \<Rightarrow> string \<Rightarrow> string \<Rightarrow> auth_state
     \<Rightarrow> (error + (nat \<times> user) \<times> string) \<times> auth_state" where
  "verifyOtp h io rawPhone code s =
     (let phone = normalizePhone rawPhone in
      case findLatestLive phone (queryNow io) (otpCodes s) of
        None \<Rightarrow> (Inl (Error ''OTP not found or expired''), s)
      | Some i \<Rightarrow>
          let record = otpCodes s ! i;
              ok = (codeHash record = h code);
              s1 = s\<lparr>otpCodes := (otpCodes s)
                     [i := record\<lparr>attempts := attempts record + 1,
                                  usedAt := (if ok then Some (usedNow io) else usedAt record)\<rparr>]\<rparr>
          in if \<not> ok then (Inl (Error ''Invalid OTP code''), s1)
             else
               let (uid, s2) =
                     (case findFirstIndex (\<lambda>u. u_phone u = Some phone) (users s1) of
                        Some k \<Rightarrow> (k, s1)
                      | None \<Rightarrow> (length (users s1),
                                 s1\<lparr>users := users s1 @ [\<lparr>u_phone = Some phone, u_role = ''USER''\<rparr>]\<rparr>));
                   s3 = s2\<lparr>apiKeys := apiKeys s2 @
                           [\<lparr>k_userId = uid, k_hash = h (apiKeyPlain io), k_label = ''login''\<rparr>]\<rparr>
               in (Inr ((uid, users s3 ! uid), apiKeyPlain io), s3))"

text \<open>Successive \<open>requestOtp\<close> calls for one phone, each with its own inputs.\<close>

fun requestOtps ::
  "auth_config \<Rightarrow> (string \<Rightarrow> string) \<Rightarrow> string \<Rightarrow> otp_request list \<Rightarrow> auth_state
     \<Rightarrow> (error + unit) list \<times> auth_state" where
  "requestOtps cfg h rawPhone [] s = ([], s)"
| "requestOtps cfg h rawPhone (io # ios) s =
     (let (r, s1) = requestOtp cfg h io rawPhone s;
          (rs, s2) = requestOtps cfg h rawPhone ios s1
      in (r # rs, s2))"

section \<open>A concrete scenario\<close>

text \<open>
  The end-to-end scenario of the specification: a plan of price 100000 and 30 days, a
  subscription paid through the mock gateway, and a phone that logs in with a one-time code.
\<close>

definition monthlyPlan :: plan where
  "monthlyPlan = \<lparr>pl_name = ''Monthly'', pl_price = 100000, pl_currency = ''IRR'',
                   pl_duration = 30, pl_isActive = True\<rparr>"

definition pendingSubscription :: subscription where
  "pendingSubscription = \<lparr>s_userId = ''user-1'', s_planId = ''plan-1'', s_status = S_PENDING,
                           s_autoRenew = True, s_startDate = None, s_endDate = None\<rparr>"

definition mockPayment :: payment where
  "mockPayment =
     \<lparr>p_subscriptionId = ''sub-1'', p_amount = 100000, p_currency = ''IRR'', p_gateway = ''mock'',
      p_authority = Some ''AUTH-1'', p_paymentUrl = Some ''https://mock.pay/StartPay/AUTH-1'',
      p_status = PENDING, p_gatewayTxId = None, p_paidAt = None, p_verifiedAt = None,
      p_metadata = Some [(''message'', JString ''Mock payment created'')],
      p_userEmail = None, p_userPhone = None, p_notificationSent = True, p_createdAt = 1000\<rparr>"

definition pendingDb :: db where
  "pendingDb = \<lparr>plans = [''plan-1'' \<mapsto> monthlyPlan],
                 subscriptions = [''sub-1'' \<mapsto> pendingSubscription],
                 payments = [mockPayment], verifyCalls = []\<rparr>"

definition completedDb :: db where
  "completedDb = pendingDb\<lparr>payments := [mockPayment\<lparr>p_status := COMPLETED, p_gatewayTxId := Some ''REF-7''\<rparr>]\<rparr>"

definition failedDb :: db where
  "failedDb = pendingDb\<lparr>payments := [mockPayment\<lparr>p_status := FAILED\<rparr>]\<rparr>"

definition activeDb :: db where
  "activeDb = pendingDb\<lparr>subscriptions := [''sub-1'' \<mapsto>
     pendingSubscription\<lparr>s_status := ACTIVE, s_startDate := Some 1700000000000,
                         s_endDate := Some 1702592000000\<rparr>]\<rparr>"

definition longPlanDb :: db where
  "longPlanDb = pendingDb\<lparr>plans := [''plan-1'' \<mapsto> monthlyPlan\<lparr>pl_duration := 2147483647\<rparr>]\<rparr>"

definition utcZone :: zone where
  "utcZone = \<lparr>utcOffset = (\<lambda>t. 0), localOffset = (\<lambda>l. 0)\<rparr>"


definition quietWorld :: world where
  "quietWorld = \<lparr>zarinpalVerify = (\<lambda>_. Rejected None ''Network Error''),
                  zibalVerify = (\<lambda>_. Response None),
                  mockNow = 5000, paidNow = 5001, verifiedNow = 5002\<rparr>"

definition authConfig :: auth_config where
  "authConfig = \<lparr>RATE_LIMIT_WINDOW_SEC = 60, RATE_LIMIT_MAX_REQUESTS = 2, OTP_EXP_MIN = 2\<rparr>"

definition emptyAuth :: auth_state where
  "emptyAuth = \<lparr>rate = Map.empty, otpCodes = [], users = [], apiKeys = []\<rparr>"

definition otpAt :: "int \<Rightarrow> string \<Rightarrow> otp_request" where
  "otpAt t c = \<lparr>rateNow = t, expiryNow = t, createdNow = t, randCode = c\<rparr>"

definition verifyAt :: "int \<Rightarrow> string \<Rightarrow> otp_verify" where
  "verifyAt t k = \<lparr>queryNow = t, usedNow = t, apiKeyPlain = k\<rparr>"

text \<open>
  Three states of the login scenario, reached from the empty state by the operations
  themselves: one code requested; the same code drawn again one second later; and the
  second of the two codes verified.
\<close>

definition oneCode :: auth_state where
  "oneCode = snd (requestOtp authConfig (\<lambda>c. c) (otpAt 0 ''123456'') ''+989121234567'' emptyAuth)"

definition twoCodes :: auth_state where
  "twoCodes = snd (requestOtp authConfig (\<lambda>c. c) (otpAt 1000 ''123456'') ''+989121234567'' oneCode)"

definition firstVerified :: auth_state where
  "firstVerified = snd (verifyOtp (\<lambda>c. c) (verifyAt 2000 ''key-1'') ''+989121234567'' ''123456'' twoCodes)"

section \<open>Facts about the store\<close>

lemma findFirstIndex_Some:
  "findFirstIndex P xs = Some i \<Longrightarrow> i < length xs \<and> P (xs ! i) \<and> (\<forall>j<i. \<not> P (xs ! j))"
proof (induction xs arbitrary: i)
  case Nil
  then show ?case by simp
next
  case (Cons x xs)
  show ?case
  proof (cases "P x")
    case True
    with Cons.prems show ?thesis by simp
  next
    case False
    with Cons.prems obtain k where k: "findFirstIndex P xs = Some k" "i = Suc k"
      by auto
    from Cons.IH[OF k(1)] False k(2) show ?thesis
      by (auto simp: nth_Cons split: nat.splits)
  qed
qed

lemma findFirstIndex_cong:
  "length ys = length xs \<Longrightarrow> (\<And>j. j < length xs \<Longrightarrow> P (ys ! j) = P (xs ! j))
     \<Longrightarrow> findFirstIndex P ys = findFirstIndex P xs"
proof (induction xs arbitrary: ys)
  case Nil
  then show ?case by simp
next
  case (Cons x xs)
  then obtain y ys' where ys: "ys = y # ys'" by (cases ys) auto
  have h0: "P y = P x" using Cons.prems(2)[of 0] ys by simp
  have "findFirstIndex P ys' = findFirstIndex P xs"
  proof (rule Cons.IH)
    show "length ys' = length xs" using Cons.prems(1) ys by simp
    fix j assume "j < length xs"
    then show "P (ys' ! j) = P (xs ! j)" using Cons.prems(2)[of "Suc j"] ys by simp
  qed
  with h0 ys show ?case by simp
qed

lemma getPaymentGateway_mock: "getPaymentGateway ''mock'' = Inr (Adapter MockGateway)"
  by code_simp

lemma find_pendingDb:
  "findFirstIndex (\<lambda>p. p_authority p = Some ''AUTH-1'') (payments pendingDb) = Some 0"
  by (simp add: pendingDb_def mockPayment_def)

lemma find_completedDb:
  "findFirstIndex (\<lambda>p. p_authority p = Some ''AUTH-1'') (payments completedDb) = Some 0"
  by (simp add: completedDb_def pendingDb_def mockPayment_def)

lemma find_failedDb:
  "findFirstIndex (\<lambda>p. p_authority p = Some ''AUTH-1'') (payments failedDb) = Some 0"
  by (simp add: failedDb_def pendingDb_def mockPayment_def)

section \<open>Payment verification\<close>

lemma verifyPayment_on_failure_status:
  assumes "findFirstIndex (\<lambda>p. p_authority p = Some authority) (payments s) = Some i"
      and "isFailureStatus status"
  shows "verifyPayment w authority status s =
           (Inl (PaymentGatewayError ''Payment was cancelled or failed'' None), markFailed i s)"
  using assms by (simp add: verifyPayment_def)

lemma verifyPayment_on_completed:
  assumes "findFirstIndex (\<lambda>p. p_authority p = Some authority) (payments s) = Some i"
      and "p_status (payments s ! i) = COMPLETED"
      and "\<not> isFailureStatus status"
  shows "verifyPayment w authority status s = (Inr (i, payments s ! i), s)"
  using assms by (simp add: verifyPayment_def)

lemma verifyPayment_on_mock:
  assumes "findFirstIndex (\<lambda>p. p_authority p = Some authority) (payments s) = Some i"
      and "p_status (payments s ! i) \<noteq> COMPLETED"
      and "\<not> isFailureStatus status"
      and "p_gateway (payments s ! i) = ''mock''"
  shows "verifyPayment w authority status s =
           (let payment = payments s ! i;
                resp = \<lparr>refId = Some (''REF-'' @ showInt (mockNow w)), cardPan = Some ''1234-5678-****-****'',
                        cardHash = Some ''mock-hash'', feeType = Some ''fixed'', fee = Some 0\<rparr>;
                up = payment\<lparr>p_status := COMPLETED, p_gatewayTxId := refId resp,
                       p_paidAt := Some (paidNow w), p_verifiedAt := Some (verifiedNow w),
                       p_metadata := Some (mergeMetadata (p_metadata payment) resp)\<rparr>
            in (Inr (i, up),
                s\<lparr>verifyCalls := verifyCalls s @ [\<lparr>vr_authority = authority, vr_amount = p_amount payment\<rparr>],
                  payments := (payments s)[i := up]\<rparr>))"
  using assms
  by (simp add: verifyPayment_def getPaymentGateway_mock adapterVerifyPayment_def
      mockVerifyPayment_def Let_def)

lemma verifyPayment_success_shape:
  assumes "verifyPayment w authority status s = (Inr r, s')"
  shows "\<not> isFailureStatus status
     \<and> findFirstIndex (\<lambda>p. p_authority p = Some authority) (payments s') = Some (fst r)
     \<and> payments s' ! fst r = snd r \<and> p_status (snd r) = COMPLETED"
proof -
  let ?P = "\<lambda>p. p_authority p = Some authority"
  from assms obtain i where i: "findFirstIndex ?P (payments s) = Some i"
    by (auto simp: verifyPayment_def split: option.splits)
  note fi = findFirstIndex_Some[OF i]
  have nf: "\<not> isFailureStatus status" using assms i
    by (auto simp: verifyPayment_def Let_def split: if_splits)
  show ?thesis
  proof (cases "p_status (payments s ! i) = COMPLETED")
    case True
    with assms i nf have "r = (i, payments s ! i)" "s' = s"
      by (auto simp: verifyPayment_def Let_def)
    with i True nf show ?thesis by simp
  next
    case False
    from assms i nf False obtain g resp where
      g: "getPaymentGateway (p_gateway (payments s ! i)) = Inr (Adapter g)"
      and resp: "adapterVerifyPayment w g \<lparr>vr_authority = authority, vr_amount = p_amount (payments s ! i)\<rparr> = Inr resp"
      by (auto simp: verifyPayment_def Let_def split: sum.splits resolved.splits)
    define up where "up = (payments s ! i)\<lparr>p_status := COMPLETED, p_gatewayTxId := refId resp,
        p_paidAt := Some (paidNow w), p_verifiedAt := Some (verifiedNow w),
        p_metadata := Some (mergeMetadata (p_metadata (payments s ! i)) resp)\<rparr>"
    from assms i nf False g resp have r: "r = (i, up)" and s': "payments s' = (payments s)[i := up]"
      by (auto simp: verifyPayment_def Let_def up_def)
    have "findFirstIndex ?P (payments s') = findFirstIndex ?P (payments s)"
    proof (rule findFirstIndex_cong)
      show "length (payments s') = length (payments s)" using s' by simp
      fix j assume "j < length (payments s)"
      then show "?P (payments s' ! j) = ?P (payments s ! j)"
        using s' fi by (cases "j = i") (auto simp: up_def)
    qed
    with i r s' fi nf show ?thesis by (simp add: up_def)
  qed
qed

text \<open>
  C1. A payment that is already COMPLETED, verified again by its authority with a status
  other than \<open>NOK\<close>/\<open>cancel\<close>, is returned as stored and the store is left as it was; in
  particular the log of adapter calls does not grow. And when a call of \<open>verifyPayment\<close> has
  succeeded, a second call with the same authority (whatever the outside world would answer)
  returns the same payment data and leaves the store, with its call log, unchanged.
\<close>

theorem verifyPayment_idempotent:
  "(findFirstIndex (\<lambda>p. p_authority p = Some authority) (payments s) = Some i
      \<and> p_status (payments s ! i) = COMPLETED \<and> \<not> isFailureStatus status
    \<longrightarrow> verifyPayment w authority status s = (Inr (i, payments s ! i), s))
   \<and> (verifyPayment w authority status s = (Inr r, s') \<and> \<not> isFailureStatus status'
    \<longrightarrow> verifyPayment w' authority status' s' = (Inr r, s'))"
proof (intro conjI impI)
  assume "findFirstIndex (\<lambda>p. p_authority p = Some authority) (payments s) = Some i
      \<and> p_status (payments s ! i) = COMPLETED \<and> \<not> isFailureStatus status"
  then show "verifyPayment w authority status s = (Inr (i, payments s ! i), s)"
    by (simp add: verifyPayment_on_completed)
next
  assume a: "verifyPayment w authority status s = (Inr r, s') \<and> \<not> isFailureStatus status'"
  from verifyPayment_success_shape[of w authority status s r s'] a
  have "verifyPayment w' authority status' s' = (Inr (fst r, payments s' ! fst r), s')"
    by (intro verifyPayment_on_completed) simp_all
  with verifyPayment_success_shape[of w authority status s r s'] a
  show "verifyPayment w' authority status' s' = (Inr r, s')"
    by simp
qed

theorem verifyPayment_idempotent_witness:
  "verifyPayment quietWorld ''AUTH-1'' (Some ''OK'') completedDb
     = (Inr (0, payments completedDb ! 0), completedDb)
   \<and> verifyPayment (quietWorld\<lparr>mockNow := 9000\<rparr>) ''AUTH-1'' None
        (snd (verifyPayment quietWorld ''AUTH-1'' (Some ''OK'') pendingDb))
     = (fst (verifyPayment quietWorld ''AUTH-1'' (Some ''OK'') pendingDb),
        snd (verifyPayment quietWorld ''AUTH-1'' (Some ''OK'') pendingDb))
   \<and> verifyCalls (snd (verifyPayment quietWorld ''AUTH-1'' (Some ''OK'') pendingDb))
     = [\<lparr>vr_authority = ''AUTH-1'', vr_amount = 100000\<rparr>]"
proof -
  have nf: "\<not> isFailureStatus (Some ''OK'')" "\<not> isFailureStatus None"
    by (simp_all add: isFailureStatus_def)
  have st: "p_status (payments completedDb ! 0) = COMPLETED"
    by (simp add: completedDb_def)
  have pend: "p_status (payments pendingDb ! 0) \<noteq> COMPLETED" "p_gateway (payments pendingDb ! 0) = ''mock''"
    by (simp_all add: pendingDb_def mockPayment_def)
  obtain r s' where first: "verifyPayment quietWorld ''AUTH-1'' (Some ''OK'') pendingDb = (Inr r, s')"
    and calls: "verifyCalls s' = [\<lparr>vr_authority = ''AUTH-1'', vr_amount = 100000\<rparr>]"
    using verifyPayment_on_mock[OF find_pendingDb pend(1) nf(1) pend(2), of quietWorld]
    by (simp add: Let_def pendingDb_def mockPayment_def)
  from verifyPayment_idempotent[of "''AUTH-1''" completedDb 0 "Some ''OK''" quietWorld]
    find_completedDb st nf
  have a: "verifyPayment quietWorld ''AUTH-1'' (Some ''OK'') completedDb
     = (Inr (0, payments completedDb ! 0), completedDb)"
    by simp
  from verifyPayment_idempotent[of "''AUTH-1''" pendingDb 0 "Some ''OK''" quietWorld r s' None
      "quietWorld\<lparr>mockNow := 9000\<rparr>"] first nf
  have b: "verifyPayment (quietWorld\<lparr>mockNow := 9000\<rparr>) ''AUTH-1'' None s' = (Inr r, s')"
    by simp
  from a b first calls show ?thesis by simp
qed

text \<open>
  C2. For a payment found by its authority, \<open>verifyPayment\<close> with status \<open>NOK\<close> or \<open>cancel\<close>
  fails with the gateway error, leaves that payment FAILED, and does not call the adapter's
  \<open>verifyPayment\<close>: the call log is what it was.
\<close>

theorem verifyPayment_failure_status:
  assumes "findFirstIndex (\<lambda>p. p_authority p = Some authority) (payments s) = Some i"
      and "status = Some ''NOK'' \<or> status = Some ''cancel''"
  shows "fst (verifyPayment w authority status s)
           = Inl (PaymentGatewayError ''Payment was cancelled or failed'' None)
       \<and> p_status (payments (snd (verifyPayment w authority status s)) ! i) = FAILED
       \<and> verifyCalls (snd (verifyPayment w authority status s)) = verifyCalls s"
proof -
  from findFirstIndex_Some[OF assms(1)] have "i < length (payments s)" by simp
  moreover from assms(2) have "isFailureStatus status" by (simp add: isFailureStatus_def)
  ultimately show ?thesis
    using assms(1) by (simp add: verifyPayment_on_failure_status markFailed_def)
qed

theorem verifyPayment_failure_status_witness:
  "fst (verifyPayment quietWorld ''AUTH-1'' (Some ''NOK'') pendingDb)
           = Inl (PaymentGatewayError ''Payment was cancelled or failed'' None)
       \<and> p_status (payments (snd (verifyPayment quietWorld ''AUTH-1'' (Some ''NOK'') pendingDb)) ! 0) = FAILED
       \<and> verifyCalls (snd (verifyPayment quietWorld ''AUTH-1'' (Some ''NOK'') pendingDb)) = []"
  using verifyPayment_failure_status[OF find_pendingDb, of "Some ''NOK''" quietWorld]
  by (simp add: pendingDb_def)


section \<open>Payment status transitions\<close>

lemma verifyPayment_effect:
  "payments (snd (verifyPayment w a st s)) = payments s
   \<or> (\<exists>i. findFirstIndex (\<lambda>p. p_authority p = Some a) (payments s) = Some i
         \<and> (isFailureStatus st \<or> p_status (payments s ! i) \<noteq> COMPLETED)
         \<and> payments (snd (verifyPayment w a st s)) = (payments s)[i := (payments s ! i)\<lparr>p_status := FAILED\<rparr>])
   \<or> (\<exists>i up r. findFirstIndex (\<lambda>p. p_authority p = Some a) (payments s) = Some i
         \<and> \<not> isFailureStatus st \<and> fst (verifyPayment w a st s) = Inr r \<and> p_status up = COMPLETED
         \<and> payments (snd (verifyPayment w a st s)) = (payments s)[i := up])"
proof (cases "findFirstIndex (\<lambda>p. p_authority p = Some a) (payments s)")
  case None
  then show ?thesis by (simp add: verifyPayment_def)
next
  case (Some i)
  show ?thesis
  proof (cases "isFailureStatus st")
    case True
    with Some show ?thesis by (simp add: verifyPayment_on_failure_status markFailed_def)
  next
    case nf: False
    show ?thesis
    proof (cases "p_status (payments s ! i) = COMPLETED")
      case True
      with Some nf show ?thesis by (simp add: verifyPayment_on_completed)
    next
      case nc: False
      show ?thesis
      proof (cases "getPaymentGateway (p_gateway (payments s ! i))")
        case (Inl e)
        with Some nf nc show ?thesis by (simp add: verifyPayment_def)
      next
        case (Inr gw)
        show ?thesis
        proof (cases gw)
          case EmptyObject
          with Some nf nc Inr show ?thesis by (simp add: verifyPayment_def markFailed_def)
        next
          case (Adapter g)
          show ?thesis
          proof (cases "adapterVerifyPayment w g \<lparr>vr_authority = a, vr_amount = p_amount (payments s ! i)\<rparr>")
            case (Inl e)
            with Some nf nc Inr Adapter show ?thesis
              by (simp add: verifyPayment_def markFailed_def Let_def)
          next
            case resp: (Inr resp)
            define up where "up = (payments s ! i)\<lparr>p_status := COMPLETED, p_gatewayTxId := refId resp,
                p_paidAt := Some (paidNow w), p_verifiedAt := Some (verifiedNow w),
                p_metadata := Some (mergeMetadata (p_metadata (payments s ! i)) resp)\<rparr>"
            have "verifyPayment w a st s = (Inr (i, up),
                s\<lparr>verifyCalls := verifyCalls s @ [\<lparr>vr_authority = a, vr_amount = p_amount (payments s ! i)\<rparr>],
                  payments := (payments s)[i := up]\<rparr>)"
              using Some nf nc Inr Adapter resp by (simp add: verifyPayment_def Let_def up_def)
            moreover have "p_status up = COMPLETED" by (simp add: up_def)
            ultimately have "\<exists>i up r. findFirstIndex (\<lambda>p. p_authority p = Some a) (payments s) = Some i
               \<and> \<not> isFailureStatus st \<and> fst (verifyPayment w a st s) = Inr r \<and> p_status up = COMPLETED
               \<and> payments (snd (verifyPayment w a st s)) = (payments s)[i := up]"
              using Some nf by (intro exI[of _ i] exI[of _ up] exI[of _ "(i, up)"]) simp
            then show ?thesis by blast
          qed
        qed
      qed
    qed
  qed
qed

lemma createPayment_effect:
  "\<exists>new. payments (snd (createPayment reply t sid amount g email phone s)) = payments s @ new"
  by (auto simp: createPayment_def Let_def split: option.splits sum.splits resolved.splits)

text \<open>
  C3, as the code has it. Rows keep their position under every operation of the service. A
  COMPLETED payment keeps its status under every operation except a \<open>verifyPayment\<close> for its
  authority with status \<open>NOK\<close> or \<open>cancel\<close>, which makes it FAILED. A FAILED payment keeps its
  status under every operation except a \<open>verifyPayment\<close> for its authority with another status
  that succeeds at the gateway, which makes it COMPLETED.
\<close>

theorem payment_status_transitions:
  assumes "i < length (payments s)"
  shows "(p_status (payments s ! i) = COMPLETED \<longrightarrow>
            p_status (payments (exec op s) ! i) = COMPLETED
            \<or> (\<exists>w a st. op = VerifyPayment w a st \<and> isFailureStatus st
                  \<and> findFirstIndex (\<lambda>p. p_authority p = Some a) (payments s) = Some i
                  \<and> p_status (payments (exec op s) ! i) = FAILED))
       \<and> (p_status (payments s ! i) = FAILED \<longrightarrow>
            p_status (payments (exec op s) ! i) = FAILED
            \<or> (\<exists>w a st r. op = VerifyPayment w a st \<and> \<not> isFailureStatus st
                  \<and> findFirstIndex (\<lambda>p. p_authority p = Some a) (payments s) = Some i
                  \<and> fst (verifyPayment w a st s) = Inr r
                  \<and> p_status (payments (exec op s) ! i) = COMPLETED))"
proof (cases op)
  case (CreatePayment reply t sid amount g email phone)
  from createPayment_effect[of reply t sid amount g email phone s] obtain new
    where "payments (exec op s) = payments s @ new"
    using CreatePayment by auto
  with assms show ?thesis by (simp add: nth_append)
next
  case (VerifyPayment w a st)
  have e: "exec op s = snd (verifyPayment w a st s)" using VerifyPayment by simp
  from verifyPayment_effect[of w a st s] consider
      (same) "payments (snd (verifyPayment w a st s)) = payments s"
    | (failed) j where "findFirstIndex (\<lambda>p. p_authority p = Some a) (payments s) = Some j"
        "isFailureStatus st \<or> p_status (payments s ! j) \<noteq> COMPLETED"
        "payments (snd (verifyPayment w a st s)) = (payments s)[j := (payments s ! j)\<lparr>p_status := FAILED\<rparr>]"
    | (completed) j up r where "findFirstIndex (\<lambda>p. p_authority p = Some a) (payments s) = Some j"
        "\<not> isFailureStatus st" "fst (verifyPayment w a st s) = Inr r" "p_status up = COMPLETED"
        "payments (snd (verifyPayment w a st s)) = (payments s)[j := up]"
    by blast
  then show ?thesis
  proof cases
    case same
    with e show ?thesis by simp
  next
    case failed
    show ?thesis
    proof (cases "j = i")
      case True
      with assms e failed(3) have "p_status (payments (exec op s) ! i) = FAILED" by simp
      with True failed(1,2) VerifyPayment show ?thesis by auto
    next
      case False
      with e failed(3) show ?thesis by simp
    qed
  next
    case completed
    show ?thesis
    proof (cases "j = i")
      case True
      with assms e completed(4,5) have "p_status (payments (exec op s) ! i) = COMPLETED" by simp
      with True completed(1,2,3) VerifyPayment show ?thesis by auto
    next
      case False
      with e completed(5) show ?thesis by simp
    qed
  qed
next
  case (GetPaymentByAuthority a)
  then show ?thesis by simp
next
  case (GetPaymentsBySubscription sid)
  then show ?thesis by simp
qed

theorem payment_status_transitions_witness:
  "p_status (payments (exec (VerifyPayment quietWorld ''AUTH-1'' (Some ''OK'')) completedDb) ! 0) = COMPLETED
   \<and> p_status (payments (exec (GetPaymentByAuthority ''AUTH-1'') failedDb) ! 0) = FAILED"
proof -
  have len: "0 < length (payments completedDb)" "0 < length (payments failedDb)"
    by (simp_all add: completedDb_def failedDb_def)
  have st: "p_status (payments completedDb ! 0) = COMPLETED" "p_status (payments failedDb ! 0) = FAILED"
    by (simp_all add: completedDb_def failedDb_def)
  have nf: "\<not> isFailureStatus (Some ''OK'')" by (simp add: isFailureStatus_def)
  from payment_status_transitions[OF len(1), of "VerifyPayment quietWorld ''AUTH-1'' (Some ''OK'')"] st(1) nf
  have a: "p_status (payments (exec (VerifyPayment quietWorld ''AUTH-1'' (Some ''OK'')) completedDb) ! 0) = COMPLETED"
    by auto
  from payment_status_transitions[OF len(2), of "GetPaymentByAuthority ''AUTH-1''"] st(2)
  have b: "p_status (payments (exec (GetPaymentByAuthority ''AUTH-1'') failedDb) ! 0) = FAILED"
    by auto
  from a b show ?thesis by simp
qed

text \<open>
  Neither state is terminal: a \<open>NOK\<close> callback turns the COMPLETED payment of the scenario
  into a FAILED one, and a new verification of its FAILED payment, which the mock gateway
  accepts, turns it into a COMPLETED one.
\<close>

theorem terminal_states_counterexample:
  "p_status (payments completedDb ! 0) = COMPLETED
   \<and> p_status (payments (exec (VerifyPayment quietWorld ''AUTH-1'' (Some ''NOK'')) completedDb) ! 0) = FAILED
   \<and> p_status (payments failedDb ! 0) = FAILED
   \<and> p_status (payments (exec (VerifyPayment quietWorld ''AUTH-1'' (Some ''OK'')) failedDb) ! 0) = COMPLETED"
proof -
  have nok: "isFailureStatus (Some ''NOK'')" and ok: "\<not> isFailureStatus (Some ''OK'')"
    by (simp_all add: isFailureStatus_def)
  have st: "p_status (payments completedDb ! 0) = COMPLETED" "p_status (payments failedDb ! 0) = FAILED"
      "p_status (payments failedDb ! 0) \<noteq> COMPLETED" "p_gateway (payments failedDb ! 0) = ''mock''"
    by (simp_all add: completedDb_def failedDb_def pendingDb_def mockPayment_def)
  have a: "p_status (payments (exec (VerifyPayment quietWorld ''AUTH-1'' (Some ''NOK'')) completedDb) ! 0) = FAILED"
    using verifyPayment_on_failure_status[OF find_completedDb nok, of quietWorld]
    by (simp add: markFailed_def completedDb_def)
  have b: "p_status (payments (exec (VerifyPayment quietWorld ''AUTH-1'' (Some ''OK'')) failedDb) ! 0) = COMPLETED"
    using verifyPayment_on_mock[OF find_failedDb st(3) ok st(4), of quietWorld]
    by (simp add: Let_def failedDb_def)
  from st a b show ?thesis by simp
qed

section \<open>Gateway resolution\<close>

lemma registryGet_None_iff:
  "registryGet k = None \<longleftrightarrow> k \<notin> {''zarinpal'', ''mock'', ''constructor'', ''__proto__''}"
  by (simp add: registryGet_def gatewayRegistry_def inheritedProperties_def del: list.inject split: option.splits)

lemma supported_names: "join '', '' (map fst gatewayRegistry) = ''zarinpal, mock''"
  by (simp add: gatewayRegistry_def)

text \<open>
  Every name whose lower-case form is neither a registered name nor one of the two inherited
  property names is refused with a \<open>ValidationError\<close> whose message lists the registered
  names.
\<close>

lemma getPaymentGateway_unknown:
  "toLowerCase n \<notin> {''zarinpal'', ''mock'', ''constructor'', ''__proto__''} \<Longrightarrow>
   getPaymentGateway n = Inl (ValidationError
     (''Payment gateway '' @ [CHR 0x27] @ n @ [CHR 0x27] @ '' is not supported. Available gateways: zarinpal, mock''))"
  using registryGet_None_iff[of "toLowerCase n"]
  by (simp add: getPaymentGateway_def unsupportedMessage_def supported_names)

theorem getPaymentGateway_unknown_witness:
  "getPaymentGateway ''Zibal'' = Inl (ValidationError
     ''Payment gateway 'Zibal' is not supported. Available gateways: zarinpal, mock'')"
proof -
  have l: "toLowerCase ''Zibal'' = ''zibal''" by code_simp
  have "toLowerCase ''Zibal'' \<notin> {''zarinpal'', ''mock'', ''constructor'', ''__proto__''}"
    unfolding l by simp
  from getPaymentGateway_unknown[OF this] show ?thesis by simp
qed

text \<open>
  A name whose lower-case form is registered resolves to the adapter registered under it,
  whatever its capitalisation.
\<close>

lemma getPaymentGateway_registered:
  "map_of gatewayRegistry (toLowerCase n) = Some g \<Longrightarrow> getPaymentGateway n = Inr (Adapter g)"
  by (simp add: getPaymentGateway_def registryGet_def)

theorem getPaymentGateway_registered_witness:
  "getPaymentGateway ''ZarinPal'' = Inr (Adapter ZarinpalGateway)
   \<and> getPaymentGateway ''MOCK'' = Inr (Adapter MockGateway)"
proof -
  have l: "toLowerCase ''ZarinPal'' = ''zarinpal''" "toLowerCase ''MOCK'' = ''mock''" by code_simp+
  have a: "map_of gatewayRegistry (toLowerCase ''ZarinPal'') = Some ZarinpalGateway"
    unfolding l by (simp add: gatewayRegistry_def)
  have b: "map_of gatewayRegistry (toLowerCase ''MOCK'') = Some MockGateway"
    unfolding l by (simp add: gatewayRegistry_def)
  from getPaymentGateway_registered[OF a] getPaymentGateway_registered[OF b] show ?thesis by simp
qed

lemma getPaymentGateway_case_insensitive:
  "toLowerCase n = toLowerCase m \<Longrightarrow> getPaymentGateway m = Inr r \<Longrightarrow> getPaymentGateway n = Inr r"
  by (auto simp: getPaymentGateway_def split: option.splits registry_value.splits)

text \<open>
  C4 at the names \<open>constructor\<close> and \<open>__proto__\<close>, which are not registered: the first resolves,
  without any error, to the empty object that \<open>Object()\<close> returns; the second fails with a
  \<open>TypeError\<close>, not a \<open>ValidationError\<close>.
\<close>

theorem getPaymentGateway_inherited_names:
  "getPaymentGateway ''constructor'' = Inr EmptyObject
   \<and> getPaymentGateway ''__proto__'' = Inl (TypeError ''gatewayFactory is not a function'')
   \<and> ''constructor'' \<notin> set getSupportedGateways \<and> ''__proto__'' \<notin> set getSupportedGateways"
proof -
  have "getPaymentGateway ''constructor'' = Inr EmptyObject"
    by code_simp
  moreover have "getPaymentGateway ''__proto__'' = Inl (TypeError ''gatewayFactory is not a function'')"
    by code_simp
  ultimately show ?thesis
    by (simp add: getSupportedGateways_def gatewayRegistry_def)
qed

section \<open>Provider status codes\<close>

lemma showInt_123456: "showInt 123456 = ''123456''"
  by (simp add: showInt_def showNat.simps digitChar_def)

lemma zibal_accepts_only_100:
  "zb_result d \<noteq> 100 \<Longrightarrow>
   zibalVerifyPayment (Response (Some d)) =
     Inl (PaymentGatewayError (orElseOpt (zb_message d) ''Payment verification failed'') (Some (zb_result d)))"
  by (simp add: zibalVerifyPayment_def)

text \<open>
  The Zarinpal adapter returns the verification result for code 101 (already verified) as
  for code 100.
\<close>

lemma zarinpal_accepts_100_and_101:
  "z_code d = 100 \<or> z_code d = 101 \<Longrightarrow>
   (case ref_id d of None \<Rightarrow> True | Some n \<Rightarrow> printsAllDigits n) \<Longrightarrow>
   zarinpalVerifyPayment (Response d) =
     Inr \<lparr>refId = map_option showInt (ref_id d), cardPan = Some (card_pan d),
          cardHash = Some (card_hash d), feeType = Some (fee_type d), fee = Some (zfee d)\<rparr>"
  by (auto simp: zarinpalVerifyPayment_def)

theorem zarinpal_accepts_100_and_101_witness:
  "zarinpalVerifyPayment (Response \<lparr>z_code = 101, z_message = ''Verified'', card_hash = ''H'',
       card_pan = ''6219-86**-****-1234'', ref_id = Some 123456, fee_type = ''Merchant'', zfee = 0\<rparr>)
     = Inr \<lparr>refId = Some ''123456'', cardPan = Some ''6219-86**-****-1234'', cardHash = Some ''H'',
            feeType = Some ''Merchant'', fee = Some 0\<rparr>"
  using zarinpal_accepts_100_and_101[of "\<lparr>z_code = 101, z_message = ''Verified'', card_hash = ''H'',
       card_pan = ''6219-86**-****-1234'', ref_id = Some 123456, fee_type = ''Merchant'', zfee = 0\<rparr>"]
  by (simp add: showInt_123456 printsAllDigits_def)

text \<open>
  C5 at Zibal's reply for a payment that was verified before (result 201): the adapter
  raises a gateway error carrying the code, where the Zarinpal adapter returns the
  verification result for its code 101.
\<close>

theorem zibal_already_verified_is_error:
  "zibalVerifyPayment (Response (Some \<lparr>zb_result = 201, zb_message = Some ''already verified'',
       zb_refNumber = Some 123456, zb_cardNumber = Some ''6219-86**-****-1234''\<rparr>))
     = Inl (PaymentGatewayError ''already verified'' (Some 201))
   \<and> zarinpalVerifyPayment (Response \<lparr>z_code = 101, z_message = ''Verified'', card_hash = ''H'',
       card_pan = ''6219-86**-****-1234'', ref_id = Some 123456, fee_type = ''Merchant'', zfee = 0\<rparr>)
     = Inr \<lparr>refId = Some ''123456'', cardPan = Some ''6219-86**-****-1234'', cardHash = Some ''H'',
            feeType = Some ''Merchant'', fee = Some 0\<rparr>"
  by (simp add: zibalVerifyPayment_def zarinpalVerifyPayment_def orElseOpt_def orElse_def showInt_123456)


section \<open>Subscription lifecycle\<close>

lemma setDatePlus_utc:
  "setDatePlus utcZone t n = (if abs (t + n * 86400000) \<le> 8640000000000000 then Some (t + n * 86400000) else None)"
  by (simp add: setDatePlus_def utcZone_def msPerDay_def maxTimeValue_def Let_def)


lemma activateSubscription_invalid_date:
  assumes "subscriptions s sid = Some sub" and "plans s (s_planId sub) = Some pl"
      and "setDatePlus tz endNow (pl_duration pl) = None"
  shows "activateSubscription tz startNow endNow sid s
           = (Inl (PrismaClientValidationError ''Provided Date object is invalid''), s)"
  using assms by (simp add: activateSubscription_def Let_def)

lemma activateSubscription_longPlan:
  "activateSubscription utcZone 1700000000000 1700000000000 ''sub-1'' longPlanDb
     = (Inl (PrismaClientValidationError ''Provided Date object is invalid''), longPlanDb)"
proof -
  have a: "subscriptions longPlanDb ''sub-1'' = Some pendingSubscription"
    by (simp add: longPlanDb_def pendingDb_def)
  have b: "plans longPlanDb (s_planId pendingSubscription) = Some (monthlyPlan\<lparr>pl_duration := 2147483647\<rparr>)"
    by (simp add: longPlanDb_def pendingSubscription_def)
  have c: "setDatePlus utcZone 1700000000000 (pl_duration (monthlyPlan\<lparr>pl_duration := 2147483647\<rparr>)) = None"
    by (simp add: setDatePlus_utc)
  from activateSubscription_invalid_date[OF a b c] show ?thesis .
qed




text \<open>
  C9. For an existing subscription \<open>cancelSubscription\<close> succeeds and stores the row with
  status CANCELLED and \<open>autoRenew\<close> false; \<open>endDate\<close>, \<open>startDate\<close>, the user and the plan of the
  row are what they were, and every other row and table is untouched.
\<close>

theorem cancelSubscription_frame:
  assumes "subscriptions s sid = Some sub"
  shows "fst (cancelSubscription sid s) = Inr (sub\<lparr>s_status := CANCELLED, s_autoRenew := False\<rparr>)
       \<and> snd (cancelSubscription sid s)
           = s\<lparr>subscriptions := (subscriptions s)(sid \<mapsto> sub\<lparr>s_status := CANCELLED, s_autoRenew := False\<rparr>)\<rparr>
       \<and> (\<exists>sub'. subscriptions (snd (cancelSubscription sid s)) sid = Some sub'
             \<and> s_status sub' = CANCELLED \<and> s_autoRenew sub' = False
             \<and> s_endDate sub' = s_endDate sub \<and> s_startDate sub' = s_startDate sub
             \<and> s_userId sub' = s_userId sub \<and> s_planId sub' = s_planId sub)
       \<and> (\<forall>k. k \<noteq> sid \<longrightarrow> subscriptions (snd (cancelSubscription sid s)) k = subscriptions s k)
       \<and> plans (snd (cancelSubscription sid s)) = plans s
       \<and> payments (snd (cancelSubscription sid s)) = payments s"
  using assms by (simp add: cancelSubscription_def Let_def)

theorem cancelSubscription_frame_witness:
  "fst (cancelSubscription ''sub-1'' activeDb)
     = Inr \<lparr>s_userId = ''user-1'', s_planId = ''plan-1'', s_status = CANCELLED, s_autoRenew = False,
            s_startDate = Some 1700000000000, s_endDate = Some 1702592000000\<rparr>
   \<and> map_option s_endDate (subscriptions (snd (cancelSubscription ''sub-1'' activeDb)) ''sub-1'')
     = Some (Some 1702592000000)"
proof -
  have a: "subscriptions activeDb ''sub-1'' = Some (pendingSubscription\<lparr>s_status := ACTIVE,
      s_startDate := Some 1700000000000, s_endDate := Some 1702592000000\<rparr>)"
    by (simp add: activeDb_def)
  from cancelSubscription_frame[OF a]
  show ?thesis by (simp add: pendingSubscription_def)
qed

section \<open>Phone normalisation\<close>

lemma dropWhile_snoc_keep: "\<not> P a \<Longrightarrow> dropWhile P (xs @ a # ys) = dropWhile P xs @ a # ys"
  by (induction xs) auto

lemma trim_Cons_keep:
  "\<not> isWhiteSpace a \<Longrightarrow> trim (a # xs) = a # rev (dropWhile isWhiteSpace (rev xs))"
  by (simp add: trim_def dropWhile_snoc_keep)

lemma not_white [simp]:
  "\<not> isWhiteSpace CHR ''+''" "\<not> isWhiteSpace CHR ''9''" "\<not> isWhiteSpace CHR ''8''"
  "\<not> isWhiteSpace CHR ''0''"
  by (simp_all add: isWhiteSpace_def)

lemma normalizePhone_plus98:
  "normalizePhone (''+98'' @ rest) = ''0'' @ rev (dropWhile isWhiteSpace (rev rest))"
  by (simp add: normalizePhone_def trim_Cons_keep dropWhile_snoc_keep startsWith_def)

lemma normalizePhone_zero:
  "normalizePhone (''0'' @ rest) = ''0'' @ rev (dropWhile isWhiteSpace (rev rest))"
  by (simp add: normalizePhone_def trim_Cons_keep startsWith_def)

section \<open>Rate limiting of \<open>requestOtp\<close>\<close>

lemma requestOtp_new_window:
  assumes "case rate s (rateKey (normalizePhone raw)) of None \<Rightarrow> True
           | Some e \<Rightarrow> rateNow io - windowStart e > RATE_LIMIT_WINDOW_SEC cfg * 1000"
  shows "fst (requestOtp cfg h io raw s) = Inr ()"
    and "rate (snd (requestOtp cfg h io raw s)) (rateKey (normalizePhone raw))
           = Some \<lparr>count = 1, windowStart = rateNow io\<rparr>"
  using assms
  by (auto simp: requestOtp_def checkRateLimit_def Let_def split: option.splits)

lemma requestOtp_in_window:
  assumes "rate s (rateKey (normalizePhone raw)) = Some e"
      and "\<not> rateNow io - windowStart e > RATE_LIMIT_WINDOW_SEC cfg * 1000"
      and "count e < RATE_LIMIT_MAX_REQUESTS cfg"
  shows "fst (requestOtp cfg h io raw s) = Inr ()"
    and "rate (snd (requestOtp cfg h io raw s)) (rateKey (normalizePhone raw))
           = Some (e\<lparr>count := count e + 1\<rparr>)"
  using assms
  by (auto simp: requestOtp_def checkRateLimit_def Let_def)

lemma requestOtp_limited:
  assumes "rate s (rateKey (normalizePhone raw)) = Some e"
      and "\<not> rateNow io - windowStart e > RATE_LIMIT_WINDOW_SEC cfg * 1000"
      and "count e \<ge> RATE_LIMIT_MAX_REQUESTS cfg"
  shows "requestOtp cfg h io raw s = (Inl tooManyRequests, s)"
  using assms
  by (auto simp: requestOtp_def checkRateLimit_def Let_def)

lemma requestOtps_in_window:
  assumes "rate s (rateKey (normalizePhone raw)) = Some e"
      and "\<forall>io\<in>set ios. \<not> rateNow io - windowStart e > RATE_LIMIT_WINDOW_SEC cfg * 1000"
      and "count e + int (length ios) \<le> RATE_LIMIT_MAX_REQUESTS cfg"
  shows "fst (requestOtps cfg h raw ios s) = replicate (length ios) (Inr ())
       \<and> rate (snd (requestOtps cfg h raw ios s)) (rateKey (normalizePhone raw))
           = Some (e\<lparr>count := count e + int (length ios)\<rparr>)"
  using assms
proof (induction ios arbitrary: s e)
  case Nil
  then show ?case by simp
next
  case (Cons io ios)
  let ?s1 = "snd (requestOtp cfg h io raw s)"
  let ?e1 = "e\<lparr>count := count e + 1\<rparr>"
  have w: "\<not> rateNow io - windowStart e > RATE_LIMIT_WINDOW_SEC cfg * 1000"
    using Cons.prems(2) by simp
  have c: "count e < RATE_LIMIT_MAX_REQUESTS cfg"
    using Cons.prems(3) by simp
  note step = requestOtp_in_window[OF Cons.prems(1) w c, of h]
  have ih: "fst (requestOtps cfg h raw ios ?s1) = replicate (length ios) (Inr ())
       \<and> rate (snd (requestOtps cfg h raw ios ?s1)) (rateKey (normalizePhone raw))
           = Some (?e1\<lparr>count := count ?e1 + int (length ios)\<rparr>)"
  proof (rule Cons.IH)
    show "rate ?s1 (rateKey (normalizePhone raw)) = Some ?e1" by (rule step(2))
    show "\<forall>io\<in>set ios. \<not> rateNow io - windowStart ?e1 > RATE_LIMIT_WINDOW_SEC cfg * 1000"
      using Cons.prems(2) by simp
    show "count ?e1 + int (length ios) \<le> RATE_LIMIT_MAX_REQUESTS cfg"
      using Cons.prems(3) by simp
  qed
  from step(1) ih show ?case
    by (simp add: split_beta Let_def add.assoc)
qed

lemma requestOtps_append:
  "requestOtps cfg h raw (xs @ ys) s =
     (fst (requestOtps cfg h raw xs s) @ fst (requestOtps cfg h raw ys (snd (requestOtps cfg h raw xs s))),
      snd (requestOtps cfg h raw ys (snd (requestOtps cfg h raw xs s))))"
  by (induction xs arbitrary: s) (simp_all add: split_beta Let_def)

text \<open>
  C6, as the code has it, for a configured maximum \<open>N\<close> of at least 1. The first call opens
  a window (the phone has no counter, or its window has elapsed); the calls after it fall
  within that window. Then the first \<open>N\<close> calls succeed and call \<open>N + 1\<close> fails with the
  rate-limit error. Once the window has elapsed (now minus \<open>windowStart\<close> exceeds the window
  length) the next call succeeds and the counter is reset to a new window with count 1.
\<close>

theorem requestOtp_rate_limit:
  assumes "1 \<le> RATE_LIMIT_MAX_REQUESTS cfg"
      and "int (length ios) = RATE_LIMIT_MAX_REQUESTS cfg - 1"
      and "case rate s (rateKey (normalizePhone raw)) of None \<Rightarrow> True
           | Some e \<Rightarrow> rateNow io1 - windowStart e > RATE_LIMIT_WINDOW_SEC cfg * 1000"
      and "\<forall>io\<in>set (ios @ [ioLast]). \<not> rateNow io - rateNow io1 > RATE_LIMIT_WINDOW_SEC cfg * 1000"
  shows "fst (requestOtps cfg h raw (io1 # ios @ [ioLast]) s)
           = replicate (nat (RATE_LIMIT_MAX_REQUESTS cfg)) (Inr ()) @ [Inl tooManyRequests]
       \<and> (\<forall>io'. rateNow io' - rateNow io1 > RATE_LIMIT_WINDOW_SEC cfg * 1000 \<longrightarrow>
             fst (requestOtp cfg h io' raw (snd (requestOtps cfg h raw (io1 # ios @ [ioLast]) s))) = Inr ()
           \<and> rate (snd (requestOtp cfg h io' raw (snd (requestOtps cfg h raw (io1 # ios @ [ioLast]) s))))
                (rateKey (normalizePhone raw)) = Some \<lparr>count = 1, windowStart = rateNow io'\<rparr>)"
proof -
  let ?key = "rateKey (normalizePhone raw)"
  let ?N = "RATE_LIMIT_MAX_REQUESTS cfg"
  let ?s1 = "snd (requestOtp cfg h io1 raw s)"
  let ?e1 = "\<lparr>count = 1, windowStart = rateNow io1\<rparr>"
  let ?s2 = "snd (requestOtps cfg h raw ios ?s1)"
  let ?e2 = "\<lparr>count = ?N, windowStart = rateNow io1\<rparr>"
  note first = requestOtp_new_window[OF assms(3), of h]
  have mid: "fst (requestOtps cfg h raw ios ?s1) = replicate (length ios) (Inr ())
       \<and> rate ?s2 ?key = Some (?e1\<lparr>count := count ?e1 + int (length ios)\<rparr>)"
  proof (rule requestOtps_in_window)
    show "rate ?s1 ?key = Some ?e1" by (rule first(2))
    show "\<forall>io\<in>set ios. \<not> rateNow io - windowStart ?e1 > RATE_LIMIT_WINDOW_SEC cfg * 1000"
      using assms(4) by simp
    show "count ?e1 + int (length ios) \<le> ?N" using assms(2) by simp
  qed
  then have r2: "rate ?s2 ?key = Some ?e2" using assms(2) by simp
  have last: "requestOtp cfg h ioLast raw ?s2 = (Inl tooManyRequests, ?s2)"
  proof (rule requestOtp_limited[OF r2])
    show "\<not> rateNow ioLast - windowStart ?e2 > RATE_LIMIT_WINDOW_SEC cfg * 1000"
      using assms(4) by simp
    show "count ?e2 \<ge> ?N" by simp
  qed
  have len: "Suc (length ios) = nat ?N" using assms(1,2) by linarith
  have run: "requestOtps cfg h raw (io1 # ios @ [ioLast]) s
      = (replicate (nat ?N) (Inr ()) @ [Inl tooManyRequests], ?s2)"
    using first(1) mid last len[symmetric]
    by (simp add: requestOtps_append split_beta Let_def)
  have after: "fst (requestOtp cfg h io' raw ?s2) = Inr ()
      \<and> rate (snd (requestOtp cfg h io' raw ?s2)) ?key = Some \<lparr>count = 1, windowStart = rateNow io'\<rparr>"
    if "rateNow io' - rateNow io1 > RATE_LIMIT_WINDOW_SEC cfg * 1000" for io'
  proof -
    have "case rate ?s2 ?key of None \<Rightarrow> True
           | Some e \<Rightarrow> rateNow io' - windowStart e > RATE_LIMIT_WINDOW_SEC cfg * 1000"
      using r2 that by simp
    from requestOtp_new_window[OF this, of h] show ?thesis by simp
  qed
  from run after show ?thesis by simp
qed

theorem requestOtp_rate_limit_witness:
  "fst (requestOtps authConfig (\<lambda>c. c) ''+989121234567''
          [otpAt 0 ''111111'', otpAt 10000 ''222222'', otpAt 60000 ''333333''] emptyAuth)
     = [Inr (), Inr (), Inl tooManyRequests]
   \<and> fst (requestOtp authConfig (\<lambda>c. c) (otpAt 60001 ''444444'') ''+989121234567''
          (snd (requestOtps authConfig (\<lambda>c. c) ''+989121234567''
             [otpAt 0 ''111111'', otpAt 10000 ''222222'', otpAt 60000 ''333333''] emptyAuth)))
     = Inr ()"
proof -
  have n: "1 \<le> RATE_LIMIT_MAX_REQUESTS authConfig"
    by (simp add: authConfig_def)
  have l: "int (length [otpAt 10000 ''222222'']) = RATE_LIMIT_MAX_REQUESTS authConfig - 1"
    by (simp add: authConfig_def)
  have f: "case rate emptyAuth (rateKey (normalizePhone ''+989121234567'')) of None \<Rightarrow> True
           | Some e \<Rightarrow> rateNow (otpAt 0 ''111111'') - windowStart e > RATE_LIMIT_WINDOW_SEC authConfig * 1000"
    by (simp add: emptyAuth_def)
  have w: "\<forall>io\<in>set ([otpAt 10000 ''222222''] @ [otpAt 60000 ''333333'']).
      \<not> rateNow io - rateNow (otpAt 0 ''111111'') > RATE_LIMIT_WINDOW_SEC authConfig * 1000"
    by (simp add: otpAt_def authConfig_def)
  have a: "rateNow (otpAt 60001 ''444444'') - rateNow (otpAt 0 ''111111'') > RATE_LIMIT_WINDOW_SEC authConfig * 1000"
    by (simp add: otpAt_def authConfig_def)
  have two: "replicate (nat (RATE_LIMIT_MAX_REQUESTS authConfig)) (Inr ()) = [Inr (), Inr () :: error + unit]"
    by (simp add: authConfig_def numeral_2_eq_2)
  from requestOtp_rate_limit[OF n l f w, of "\<lambda>c. c"] a two
  show ?thesis by simp
qed

text \<open>
  With a configured maximum of 0 the claim would have the first call fail; the code lets the
  call that opens a window through without comparing the counter with the maximum.
\<close>

theorem requestOtp_rate_limit_counterexample:
  "fst (requestOtp (authConfig\<lparr>RATE_LIMIT_MAX_REQUESTS := 0\<rparr>) (\<lambda>c. c) (otpAt 0 ''111111'')
          ''+989121234567'' emptyAuth) = Inr ()"
proof -
  have "case rate emptyAuth (rateKey (normalizePhone ''+989121234567'')) of None \<Rightarrow> True
           | Some e \<Rightarrow> rateNow (otpAt 0 ''111111'') - windowStart e
               > RATE_LIMIT_WINDOW_SEC (authConfig\<lparr>RATE_LIMIT_MAX_REQUESTS := 0\<rparr>) * 1000"
    by (simp add: emptyAuth_def)
  from requestOtp_new_window(1)[OF this] show ?thesis .
qed


section \<open>The one-time code round trip\<close>

lemma pickLatest_None: "pickLatest rows is = None \<longleftrightarrow> is = []"
  by (cases "is") (auto split: option.splits)

lemma pickLatest_Some:
  "pickLatest rows is = Some k \<Longrightarrow>
     k \<in> set is \<and> (\<forall>i\<in>set is. o_createdAt (rows ! i) \<le> o_createdAt (rows ! k))"
proof (induction "is" arbitrary: k)
  case Nil
  then show ?case by simp
next
  case (Cons i "is")
  show ?case
  proof (cases "pickLatest rows is")
    case None
    then have "is = []" by (simp add: pickLatest_None)
    with Cons.prems show ?thesis by simp
  next
    case (Some j)
    note ih = Cons.IH[OF Some]
    show ?thesis
    proof (cases "o_createdAt (rows ! j) \<ge> o_createdAt (rows ! i)")
      case True
      with Cons.prems Some have "k = j" by simp
      with ih True show ?thesis by auto
    next
      case False
      with Cons.prems Some have "k = i" by simp
      with ih False show ?thesis by fastforce
    qed
  qed
qed

lemma findLatestLive_None:
  "findLatestLive ph t rows = None \<longleftrightarrow> (\<forall>i<length rows. \<not> isLive ph t (rows ! i))"
  by (auto simp: findLatestLive_def pickLatest_None filter_empty_conv)

lemma findLatestLive_Some:
  assumes "findLatestLive ph t rows = Some k"
  shows "k < length rows \<and> isLive ph t (rows ! k)
       \<and> (\<forall>i<length rows. isLive ph t (rows ! i) \<longrightarrow> o_createdAt (rows ! i) \<le> o_createdAt (rows ! k))"
  using pickLatest_Some[OF assms[unfolded findLatestLive_def]] by auto

lemma findLatestLive_newest:
  assumes "isLive ph t row"
      and "\<forall>r\<in>set rows. o_phone r = ph \<longrightarrow> o_createdAt r < o_createdAt row"
  shows "findLatestLive ph t (rows @ [row]) = Some (length rows)"
proof (cases "findLatestLive ph t (rows @ [row])")
  case None
  then have "\<forall>i<length (rows @ [row]). \<not> isLive ph t ((rows @ [row]) ! i)"
    by (simp only: findLatestLive_None)
  then have "\<not> isLive ph t ((rows @ [row]) ! length rows)"
    by (rule allE[where x = "length rows"]) simp
  with assms(1) show ?thesis by simp
next
  case (Some k)
  note p = findLatestLive_Some[OF Some]
  have "k = length rows"
  proof (rule ccontr)
    assume "k \<noteq> length rows"
    with p have k: "k < length rows" by simp
    with p have live: "isLive ph t (rows ! k)" by (simp add: nth_append)
    then have "o_phone (rows ! k) = ph" by (simp add: isLive_def)
    with assms(2) k have lt: "o_createdAt (rows ! k) < o_createdAt row" by simp
    from p have "\<forall>i<length (rows @ [row]). isLive ph t ((rows @ [row]) ! i) \<longrightarrow>
        o_createdAt ((rows @ [row]) ! i) \<le> o_createdAt ((rows @ [row]) ! k)"
      by simp
    then have "o_createdAt ((rows @ [row]) ! length rows) \<le> o_createdAt ((rows @ [row]) ! k)"
      by (rule allE[where x = "length rows"]) (use assms(1) in simp)
    with k lt show False by (simp add: nth_append)
  qed
  with Some show ?thesis by simp
qed

lemma requestOtp_success:
  assumes "fst (requestOtp cfg h io raw s) = Inr ()"
  shows "otpCodes (snd (requestOtp cfg h io raw s)) = otpCodes s @
           [\<lparr>o_phone = normalizePhone raw, codeHash = h (randCode io),
             expiresAt = expiryNow io + OTP_EXP_MIN cfg * 60000,
             attempts = 0, usedAt = None, o_createdAt = createdNow io\<rparr>]"
    and "users (snd (requestOtp cfg h io raw s)) = users s"
    and "apiKeys (snd (requestOtp cfg h io raw s)) = apiKeys s"
  using assms by (auto simp: requestOtp_def Let_def split: sum.splits)

text \<open>What \<open>verifyOtp\<close> does once the row it reads is known.\<close>

lemma verifyOtp_match:
  assumes "findLatestLive (normalizePhone raw) (queryNow v) (otpCodes s) = Some i"
      and "codeHash (otpCodes s ! i) = h code"
  shows "\<exists>uid. fst (verifyOtp h v raw code s)
             = Inr ((uid, users (snd (verifyOtp h v raw code s)) ! uid), apiKeyPlain v)
           \<and> uid < length (users (snd (verifyOtp h v raw code s)))
           \<and> u_phone (users (snd (verifyOtp h v raw code s)) ! uid) = Some (normalizePhone raw)
           \<and> apiKeys (snd (verifyOtp h v raw code s))
               = apiKeys s @ [\<lparr>k_userId = uid, k_hash = h (apiKeyPlain v), k_label = ''login''\<rparr>]"
    and "otpCodes (snd (verifyOtp h v raw code s))
           = (otpCodes s)[i := (otpCodes s ! i)\<lparr>attempts := attempts (otpCodes s ! i) + 1,
                                               usedAt := Some (usedNow v)\<rparr>]"
proof -
  let ?ph = "normalizePhone raw"
  show "otpCodes (snd (verifyOtp h v raw code s))
           = (otpCodes s)[i := (otpCodes s ! i)\<lparr>attempts := attempts (otpCodes s ! i) + 1,
                                               usedAt := Some (usedNow v)\<rparr>]"
    using assms by (simp add: verifyOtp_def Let_def split_beta split: option.splits)
  show "\<exists>uid. fst (verifyOtp h v raw code s)
             = Inr ((uid, users (snd (verifyOtp h v raw code s)) ! uid), apiKeyPlain v)
           \<and> uid < length (users (snd (verifyOtp h v raw code s)))
           \<and> u_phone (users (snd (verifyOtp h v raw code s)) ! uid) = Some (normalizePhone raw)
           \<and> apiKeys (snd (verifyOtp h v raw code s))
               = apiKeys s @ [\<lparr>k_userId = uid, k_hash = h (apiKeyPlain v), k_label = ''login''\<rparr>]"
  proof (cases "findFirstIndex (\<lambda>u. u_phone u = Some ?ph) (users s)")
    case None
    with assms show ?thesis
      by (intro exI[of _ "length (users s)"]) (simp add: verifyOtp_def Let_def)
  next
    case (Some k)
    from findFirstIndex_Some[OF Some] Some assms show ?thesis
      by (intro exI[of _ k]) (simp add: verifyOtp_def Let_def)
  qed
qed

lemma verifyOtp_mismatch:
  assumes "findLatestLive (normalizePhone raw) (queryNow v) (otpCodes s) = Some i"
      and "codeHash (otpCodes s ! i) \<noteq> h code"
  shows "fst (verifyOtp h v raw code s) = Inl (Error ''Invalid OTP code'')"
  using assms by (simp add: verifyOtp_def Let_def)

lemma verifyOtp_none:
  assumes "findLatestLive (normalizePhone raw) (queryNow v) (otpCodes s) = None"
  shows "verifyOtp h v raw code s = (Inl (Error ''OTP not found or expired''), s)"
  using assms by (simp add: verifyOtp_def Let_def)


text \<open>
  C7, as the code has it. After a \<open>requestOtp\<close> that passed the rate limit, with the rows
  of that phone created earlier than the new one, \<open>verifyOtp\<close> with the same phone and the
  generated code before the expiry succeeds: it returns a user of that phone and the new
  API key in clear, stores the key's digest for that user, and stamps the code row as used.
  A second \<open>verifyOtp\<close> with the same code then fails, with one of the two errors of the
  service, provided no other unused, unexpired code row of that phone holds the same digest.
\<close>

theorem otp_round_trip:
  assumes "fst (requestOtp cfg h io raw s) = Inr ()"
      and "\<forall>r\<in>set (otpCodes s). o_phone r = normalizePhone raw \<longrightarrow> o_createdAt r < createdNow io"
      and "queryNow v1 < expiryNow io + OTP_EXP_MIN cfg * 60000"
      and "\<forall>r\<in>set (otpCodes s). isLive (normalizePhone raw) (queryNow v2) r \<longrightarrow> codeHash r \<noteq> h (randCode io)"
  shows "let s1 = snd (requestOtp cfg h io raw s);
             s2 = snd (verifyOtp h v1 raw (randCode io) s1)
         in (\<exists>uid. fst (verifyOtp h v1 raw (randCode io) s1) = Inr ((uid, users s2 ! uid), apiKeyPlain v1)
               \<and> u_phone (users s2 ! uid) = Some (normalizePhone raw)
               \<and> apiKeys s2 = apiKeys s @ [\<lparr>k_userId = uid, k_hash = h (apiKeyPlain v1), k_label = ''login''\<rparr>])
          \<and> usedAt (otpCodes s2 ! length (otpCodes s)) = Some (usedNow v1)
          \<and> (fst (verifyOtp h v2 raw (randCode io) s2) = Inl (Error ''OTP not found or expired'')
               \<or> fst (verifyOtp h v2 raw (randCode io) s2) = Inl (Error ''Invalid OTP code''))"
proof -
  let ?ph = "normalizePhone raw"
  let ?row = "\<lparr>o_phone = ?ph, codeHash = h (randCode io),
             expiresAt = expiryNow io + OTP_EXP_MIN cfg * 60000,
             attempts = 0, usedAt = None, o_createdAt = createdNow io\<rparr>"
  let ?n = "length (otpCodes s)"
  define s1 where "s1 = snd (requestOtp cfg h io raw s)"
  define s2 where "s2 = snd (verifyOtp h v1 raw (randCode io) s1)"
  note req = requestOtp_success[OF assms(1), folded s1_def]
  have live: "isLive ?ph (queryNow v1) ?row"
    using assms(3) by (simp add: isLive_def)
  have found: "findLatestLive ?ph (queryNow v1) (otpCodes s1) = Some ?n"
    unfolding req(1) by (rule findLatestLive_newest[OF live]) (use assms(2) in simp)
  have hash: "codeHash (otpCodes s1 ! ?n) = h (randCode io)"
    by (simp add: req(1))
  note first = verifyOtp_match[where h = h and code = "randCode io", OF found hash, folded s2_def]
  have rows2: "otpCodes s2 = otpCodes s @ [?row\<lparr>attempts := 1, usedAt := Some (usedNow v1)\<rparr>]"
    using first(2) by (simp add: req(1))
  have used: "usedAt (otpCodes s2 ! ?n) = Some (usedNow v1)"
    by (simp add: rows2)
  have second: "fst (verifyOtp h v2 raw (randCode io) s2) = Inl (Error ''OTP not found or expired'')
               \<or> fst (verifyOtp h v2 raw (randCode io) s2) = Inl (Error ''Invalid OTP code'')"
  proof (cases "findLatestLive ?ph (queryNow v2) (otpCodes s2)")
    case None
    then show ?thesis by (simp add: verifyOtp_none)
  next
    case (Some k)
    note p = findLatestLive_Some[OF Some]
    have "k \<noteq> ?n"
    proof
      assume "k = ?n"
      with p show False by (simp add: rows2 isLive_def)
    qed
    with p have k: "k < ?n" by (simp add: rows2)
    with p have "isLive ?ph (queryNow v2) (otpCodes s ! k)" by (simp add: rows2 nth_append)
    with assms(4) k have "codeHash (otpCodes s ! k) \<noteq> h (randCode io)" by simp
    with k have "codeHash (otpCodes s2 ! k) \<noteq> h (randCode io)" by (simp add: rows2 nth_append)
    from verifyOtp_mismatch[where h = h and code = "randCode io", OF Some this] show ?thesis by simp
  qed
  from first(1) obtain uid where
    u: "fst (verifyOtp h v1 raw (randCode io) s1) = Inr ((uid, users s2 ! uid), apiKeyPlain v1)"
       "u_phone (users s2 ! uid) = Some ?ph"
       "apiKeys s2 = apiKeys s1 @ [\<lparr>k_userId = uid, k_hash = h (apiKeyPlain v1), k_label = ''login''\<rparr>]"
    by blast
  from u req(3) used second show ?thesis
    unfolding Let_def s1_def[symmetric] s2_def[symmetric] by auto
qed


section \<open>Both spellings of a phone number\<close>

lemma trim_strip:
  assumes "\<forall>c\<in>set pre. isWhiteSpace c" and "\<forall>c\<in>set post. isWhiteSpace c"
      and "\<not> isWhiteSpace a" and "core = [] \<or> \<not> isWhiteSpace (last core)"
  shows "trim (pre @ a # core @ post) = a # core"
proof -
  have lead: "dropWhile isWhiteSpace (pre @ ys) = dropWhile isWhiteSpace ys" for ys
    by (rule dropWhile_append2) (use assms(1) in simp)
  have tail: "dropWhile isWhiteSpace (rev post @ ys) = dropWhile isWhiteSpace ys" for ys
    by (rule dropWhile_append2) (use assms(2) in simp)
  have front: "dropWhile isWhiteSpace (pre @ a # core @ post) = a # core @ post"
    using assms(3) by (simp add: lead)
  have rear: "dropWhile isWhiteSpace (rev post @ rev core @ [a]) = rev core @ [a]"
  proof (cases core rule: rev_cases)
    case Nil
    with assms(3) show ?thesis by (simp add: tail)
  next
    case (snoc ys y)
    with assms(4) have "\<not> isWhiteSpace y" by simp
    with snoc show ?thesis by (simp add: tail)
  qed
  show ?thesis
    unfolding trim_def front using rear by simp
qed

lemma normalizePhone_canonical:
  assumes "\<forall>c\<in>set pre. isWhiteSpace c" and "\<forall>c\<in>set post. isWhiteSpace c"
      and "number = [] \<or> \<not> isWhiteSpace (last number)"
  shows "normalizePhone (pre @ ''+98'' @ number @ post) = ''0'' @ number"
    and "normalizePhone (pre @ ''0'' @ number @ post) = ''0'' @ number"
proof -
  have core: "(''98'' @ number) = [] \<or> \<not> isWhiteSpace (last (''98'' @ number))"
    using assms(3) by (cases number rule: rev_cases) simp_all
  have "trim (pre @ CHR ''+'' # (''98'' @ number) @ post) = CHR ''+'' # (''98'' @ number)"
    by (rule trim_strip[OF assms(1,2) _ core]) simp
  then show "normalizePhone (pre @ ''+98'' @ number @ post) = ''0'' @ number"
    by (simp add: normalizePhone_def startsWith_def)
  have "trim (pre @ CHR ''0'' # number @ post) = CHR ''0'' # number"
    by (rule trim_strip[OF assms(1,2) _ assms(3)]) simp
  then show "normalizePhone (pre @ ''0'' @ number @ post) = ''0'' @ number"
    by (simp add: normalizePhone_def startsWith_def)
qed

text \<open>Both operations depend on the raw phone only through its normal form.\<close>

lemma requestOtp_by_normal_form:
  "normalizePhone a = normalizePhone b \<Longrightarrow> requestOtp cfg h io a s = requestOtp cfg h io b s"
  by (simp add: requestOtp_def)

lemma verifyOtp_by_normal_form:
  "normalizePhone a = normalizePhone b \<Longrightarrow> verifyOtp h v a code s = verifyOtp h v b code s"
  by (simp add: verifyOtp_def)

lemma requestOtp_rate_key:
  "fst (requestOtp cfg h io raw s)
     = (case checkRateLimit cfg (rateNow io) (''otp:'' @ normalizePhone raw) (rate s) of
          Inl e \<Rightarrow> Inl e | Inr r \<Rightarrow> Inr ())
   \<and> rate (snd (requestOtp cfg h io raw s))
     = (case checkRateLimit cfg (rateNow io) (''otp:'' @ normalizePhone raw) (rate s) of
          Inl e \<Rightarrow> rate s | Inr r \<Rightarrow> r)"
  by (simp add: requestOtp_def rateKey_def Let_def split: sum.splits)

text \<open>A code requested under one raw phone is verified under any raw phone of the same normal form.\<close>

lemma verify_after_request:
  assumes "normalizePhone b = normalizePhone a"
      and "fst (requestOtp cfg h io a s) = Inr ()"
      and "\<forall>r\<in>set (otpCodes s). o_phone r = normalizePhone a \<longrightarrow> o_createdAt r < createdNow io"
      and "queryNow v < expiryNow io + OTP_EXP_MIN cfg * 60000"
  shows "\<exists>uid. fst (verifyOtp h v b (randCode io) (snd (requestOtp cfg h io a s)))
             = Inr ((uid, users (snd (verifyOtp h v b (randCode io) (snd (requestOtp cfg h io a s)))) ! uid),
                    apiKeyPlain v)
           \<and> u_phone (users (snd (verifyOtp h v b (randCode io) (snd (requestOtp cfg h io a s)))) ! uid)
               = Some (normalizePhone a)"
proof -
  let ?ph = "normalizePhone a"
  let ?row = "\<lparr>o_phone = ?ph, codeHash = h (randCode io),
             expiresAt = expiryNow io + OTP_EXP_MIN cfg * 60000,
             attempts = 0, usedAt = None, o_createdAt = createdNow io\<rparr>"
  define s1 where "s1 = snd (requestOtp cfg h io a s)"
  note req = requestOtp_success[OF assms(2), folded s1_def]
  have live: "isLive ?ph (queryNow v) ?row"
    using assms(4) by (simp add: isLive_def)
  have "findLatestLive ?ph (queryNow v) (otpCodes s1) = Some (length (otpCodes s))"
    unfolding req(1) by (rule findLatestLive_newest[OF live]) (use assms(3) in simp)
  then have found: "findLatestLive (normalizePhone b) (queryNow v) (otpCodes s1) = Some (length (otpCodes s))"
    by (simp only: assms(1))
  have hash: "codeHash (otpCodes s1 ! length (otpCodes s)) = h (randCode io)"
    by (simp add: req(1))
  from verifyOtp_match(1)[where h = h and code = "randCode io", OF found hash]
  show ?thesis
    unfolding s1_def[symmetric] assms(1) by blast
qed

text \<open>
  C10. \<open>normalizePhone\<close> strips the white space around the phone and then puts \<open>0\<close> in the
  place of a leading \<open>+98\<close>: the \<open>+98...\<close> spelling and the \<open>0...\<close> spelling of a number, with
  any white space around them, both become \<open>0\<close> followed by the number. \<open>requestOtp\<close> and
  \<open>verifyOtp\<close> both start from it: each gives the same result and the same state for either
  spelling, the only rate-limit counter either spelling touches is the one under \<open>otp:0...\<close>,
  and a code requested under one spelling is verified, before its expiry, under the other,
  in both directions, for a user whose phone is the normal form.
\<close>

theorem normalizePhone_spellings:
  assumes "\<forall>c\<in>set pre. isWhiteSpace c" and "\<forall>c\<in>set post. isWhiteSpace c"
      and "number = [] \<or> \<not> isWhiteSpace (last number)"
  shows "normalizePhone (pre @ ''+98'' @ number @ post) = ''0'' @ number
       \<and> normalizePhone (pre @ ''0'' @ number @ post) = ''0'' @ number
       \<and> requestOtp cfg h io (pre @ ''+98'' @ number @ post) s
           = requestOtp cfg h io (pre @ ''0'' @ number @ post) s
       \<and> verifyOtp h v (pre @ ''+98'' @ number @ post) code s
           = verifyOtp h v (pre @ ''0'' @ number @ post) code s
       \<and> fst (requestOtp cfg h io (pre @ ''+98'' @ number @ post) s)
           = (case checkRateLimit cfg (rateNow io) (''otp:0'' @ number) (rate s) of
                Inl e \<Rightarrow> Inl e | Inr r \<Rightarrow> Inr ())
       \<and> rate (snd (requestOtp cfg h io (pre @ ''+98'' @ number @ post) s))
           = (case checkRateLimit cfg (rateNow io) (''otp:0'' @ number) (rate s) of
                Inl e \<Rightarrow> rate s | Inr r \<Rightarrow> r)
       \<and> (fst (requestOtp cfg h io (pre @ ''+98'' @ number @ post) s) = Inr ()
            \<and> (\<forall>r\<in>set (otpCodes s). o_phone r = ''0'' @ number \<longrightarrow> o_createdAt r < createdNow io)
            \<and> queryNow v < expiryNow io + OTP_EXP_MIN cfg * 60000
          \<longrightarrow> (\<exists>uid. fst (verifyOtp h v (pre @ ''0'' @ number @ post) (randCode io)
                          (snd (requestOtp cfg h io (pre @ ''+98'' @ number @ post) s)))
                   = Inr ((uid, users (snd (verifyOtp h v (pre @ ''0'' @ number @ post) (randCode io)
                                    (snd (requestOtp cfg h io (pre @ ''+98'' @ number @ post) s)))) ! uid),
                          apiKeyPlain v)
                 \<and> u_phone (users (snd (verifyOtp h v (pre @ ''0'' @ number @ post) (randCode io)
                                    (snd (requestOtp cfg h io (pre @ ''+98'' @ number @ post) s)))) ! uid)
                     = Some (''0'' @ number)))
       \<and> (fst (requestOtp cfg h io (pre @ ''0'' @ number @ post) s) = Inr ()
            \<and> (\<forall>r\<in>set (otpCodes s). o_phone r = ''0'' @ number \<longrightarrow> o_createdAt r < createdNow io)
            \<and> queryNow v < expiryNow io + OTP_EXP_MIN cfg * 60000
          \<longrightarrow> (\<exists>uid. fst (verifyOtp h v (pre @ ''+98'' @ number @ post) (randCode io)
                          (snd (requestOtp cfg h io (pre @ ''0'' @ number @ post) s)))
                   = Inr ((uid, users (snd (verifyOtp h v (pre @ ''+98'' @ number @ post) (randCode io)
                                    (snd (requestOtp cfg h io (pre @ ''0'' @ number @ post) s)))) ! uid),
                          apiKeyPlain v)
                 \<and> u_phone (users (snd (verifyOtp h v (pre @ ''+98'' @ number @ post) (randCode io)
                                    (snd (requestOtp cfg h io (pre @ ''0'' @ number @ post) s)))) ! uid)
                     = Some (''0'' @ number)))"
proof -
  let ?plus = "pre @ ''+98'' @ number @ post"
  let ?zero = "pre @ ''0'' @ number @ post"
  note n = normalizePhone_canonical[OF assms]
  have same: "normalizePhone ?plus = normalizePhone ?zero"
    by (simp only: n)
  have key: "''otp:'' @ normalizePhone ?plus = ''otp:0'' @ number"
    by (simp only: n) simp
  note rk = requestOtp_rate_key[of cfg h io ?plus s, unfolded key]
  have pz: "\<exists>uid. fst (verifyOtp h v ?zero (randCode io) (snd (requestOtp cfg h io ?plus s)))
                   = Inr ((uid, users (snd (verifyOtp h v ?zero (randCode io)
                                    (snd (requestOtp cfg h io ?plus s)))) ! uid), apiKeyPlain v)
                 \<and> u_phone (users (snd (verifyOtp h v ?zero (randCode io)
                                    (snd (requestOtp cfg h io ?plus s)))) ! uid) = Some (''0'' @ number)"
    if "fst (requestOtp cfg h io ?plus s) = Inr ()
        \<and> (\<forall>r\<in>set (otpCodes s). o_phone r = ''0'' @ number \<longrightarrow> o_createdAt r < createdNow io)
        \<and> queryNow v < expiryNow io + OTP_EXP_MIN cfg * 60000"
  proof -
    from that have a: "fst (requestOtp cfg h io ?plus s) = Inr ()"
      and b: "\<forall>r\<in>set (otpCodes s). o_phone r = normalizePhone ?plus \<longrightarrow> o_createdAt r < createdNow io"
      and c: "queryNow v < expiryNow io + OTP_EXP_MIN cfg * 60000"
      by (simp_all only: n) simp_all
    from verify_after_request[OF same[symmetric] a b c] show ?thesis
      by (simp only: n(1))
  qed
  have zp: "\<exists>uid. fst (verifyOtp h v ?plus (randCode io) (snd (requestOtp cfg h io ?zero s)))
                   = Inr ((uid, users (snd (verifyOtp h v ?plus (randCode io)
                                    (snd (requestOtp cfg h io ?zero s)))) ! uid), apiKeyPlain v)
                 \<and> u_phone (users (snd (verifyOtp h v ?plus (randCode io)
                                    (snd (requestOtp cfg h io ?zero s)))) ! uid) = Some (''0'' @ number)"
    if "fst (requestOtp cfg h io ?zero s) = Inr ()
        \<and> (\<forall>r\<in>set (otpCodes s). o_phone r = ''0'' @ number \<longrightarrow> o_createdAt r < createdNow io)
        \<and> queryNow v < expiryNow io + OTP_EXP_MIN cfg * 60000"
  proof -
    from that have a: "fst (requestOtp cfg h io ?zero s) = Inr ()"
      and b: "\<forall>r\<in>set (otpCodes s). o_phone r = normalizePhone ?zero \<longrightarrow> o_createdAt r < createdNow io"
      and c: "queryNow v < expiryNow io + OTP_EXP_MIN cfg * 60000"
      by (simp_all only: n) simp_all
    from verify_after_request[OF same a b c] show ?thesis
      by (simp only: n(2))
  qed
  show ?thesis
  proof (intro conjI impI)
    show "normalizePhone ?plus = ''0'' @ number" by (rule n(1))
    show "normalizePhone ?zero = ''0'' @ number" by (rule n(2))
    show "requestOtp cfg h io ?plus s = requestOtp cfg h io ?zero s"
      by (rule requestOtp_by_normal_form[OF same])
    show "verifyOtp h v ?plus code s = verifyOtp h v ?zero code s"
      by (rule verifyOtp_by_normal_form[OF same])
    from rk show "fst (requestOtp cfg h io ?plus s)
           = (case checkRateLimit cfg (rateNow io) (''otp:0'' @ number) (rate s) of
                Inl e \<Rightarrow> Inl e | Inr r \<Rightarrow> Inr ())"
      by (rule conjunct1)
    from rk show "rate (snd (requestOtp cfg h io ?plus s))
           = (case checkRateLimit cfg (rateNow io) (''otp:0'' @ number) (rate s) of
                Inl e \<Rightarrow> rate s | Inr r \<Rightarrow> r)"
      by (rule conjunct2)
  next
    assume "fst (requestOtp cfg h io ?plus s) = Inr ()
        \<and> (\<forall>r\<in>set (otpCodes s). o_phone r = ''0'' @ number \<longrightarrow> o_createdAt r < createdNow io)
        \<and> queryNow v < expiryNow io + OTP_EXP_MIN cfg * 60000"
    then show "\<exists>uid. fst (verifyOtp h v ?zero (randCode io) (snd (requestOtp cfg h io ?plus s)))
                   = Inr ((uid, users (snd (verifyOtp h v ?zero (randCode io)
                                    (snd (requestOtp cfg h io ?plus s)))) ! uid), apiKeyPlain v)
                 \<and> u_phone (users (snd (verifyOtp h v ?zero (randCode io)
                                    (snd (requestOtp cfg h io ?plus s)))) ! uid) = Some (''0'' @ number)"
      by (rule pz)
  next
    assume "fst (requestOtp cfg h io ?zero s) = Inr ()
        \<and> (\<forall>r\<in>set (otpCodes s). o_phone r = ''0'' @ number \<longrightarrow> o_createdAt r < createdNow io)
        \<and> queryNow v < expiryNow io + OTP_EXP_MIN cfg * 60000"
    then show "\<exists>uid. fst (verifyOtp h v ?plus (randCode io) (snd (requestOtp cfg h io ?zero s)))
                   = Inr ((uid, users (snd (verifyOtp h v ?plus (randCode io)
                                    (snd (requestOtp cfg h io ?zero s)))) ! uid), apiKeyPlain v)
                 \<and> u_phone (users (snd (verifyOtp h v ?plus (randCode io)
                                    (snd (requestOtp cfg h io ?zero s)))) ! uid) = Some (''0'' @ number)"
      by (rule zp)
  qed
qed

section \<open>The login scenario, step by step\<close>

lemma normalizePhone_sample: "normalizePhone ''+989121234567'' = ''09121234567''"
  using normalizePhone_plus98[of "''9121234567''"] by (simp add: isWhiteSpace_def)

lemma upt_0_2: "[0..<2] = [0, Suc 0]"
  by (simp add: upt_rec numeral_2_eq_2)

lemma request_first:
  "requestOtp authConfig (\<lambda>c. c) (otpAt 0 ''123456'') ''+989121234567'' emptyAuth =
     (Inr (), \<lparr>rate = [''otp:09121234567'' \<mapsto> \<lparr>count = 1, windowStart = 0\<rparr>],
               otpCodes = [\<lparr>o_phone = ''09121234567'', codeHash = ''123456'', expiresAt = 120000,
                            attempts = 0, usedAt = None, o_createdAt = 0\<rparr>],
               users = [], apiKeys = []\<rparr>)"
  by (simp add: requestOtp_def normalizePhone_sample checkRateLimit_def rateKey_def emptyAuth_def
      otpAt_def authConfig_def Let_def)

lemma oneCode_state:
  "oneCode = \<lparr>rate = [''otp:09121234567'' \<mapsto> \<lparr>count = 1, windowStart = 0\<rparr>],
               otpCodes = [\<lparr>o_phone = ''09121234567'', codeHash = ''123456'', expiresAt = 120000,
                            attempts = 0, usedAt = None, o_createdAt = 0\<rparr>],
               users = [], apiKeys = []\<rparr>"
  by (simp add: oneCode_def request_first)

lemma request_second:
  "requestOtp authConfig (\<lambda>c. c) (otpAt 1000 ''123456'') ''+989121234567'' oneCode =
     (Inr (), \<lparr>rate = [''otp:09121234567'' \<mapsto> \<lparr>count = 2, windowStart = 0\<rparr>],
               otpCodes = [\<lparr>o_phone = ''09121234567'', codeHash = ''123456'', expiresAt = 120000,
                            attempts = 0, usedAt = None, o_createdAt = 0\<rparr>,
                           \<lparr>o_phone = ''09121234567'', codeHash = ''123456'', expiresAt = 121000,
                            attempts = 0, usedAt = None, o_createdAt = 1000\<rparr>],
               users = [], apiKeys = []\<rparr>)"
  by (simp add: oneCode_state)
     (simp add: requestOtp_def normalizePhone_sample checkRateLimit_def rateKey_def
      otpAt_def authConfig_def Let_def)

lemma twoCodes_state:
  "twoCodes = \<lparr>rate = [''otp:09121234567'' \<mapsto> \<lparr>count = 2, windowStart = 0\<rparr>],
               otpCodes = [\<lparr>o_phone = ''09121234567'', codeHash = ''123456'', expiresAt = 120000,
                            attempts = 0, usedAt = None, o_createdAt = 0\<rparr>,
                           \<lparr>o_phone = ''09121234567'', codeHash = ''123456'', expiresAt = 121000,
                            attempts = 0, usedAt = None, o_createdAt = 1000\<rparr>],
               users = [], apiKeys = []\<rparr>"
  by (simp add: twoCodes_def request_second)

lemma verify_first_of_two:
  "verifyOtp (\<lambda>c. c) (verifyAt 2000 ''key-1'') ''+989121234567'' ''123456'' twoCodes =
     (Inr ((0, \<lparr>u_phone = Some ''09121234567'', u_role = ''USER''\<rparr>), ''key-1''),
      \<lparr>rate = [''otp:09121234567'' \<mapsto> \<lparr>count = 2, windowStart = 0\<rparr>],
               otpCodes = [\<lparr>o_phone = ''09121234567'', codeHash = ''123456'', expiresAt = 120000,
                            attempts = 0, usedAt = None, o_createdAt = 0\<rparr>,
                           \<lparr>o_phone = ''09121234567'', codeHash = ''123456'', expiresAt = 121000,
                            attempts = 1, usedAt = Some 2000, o_createdAt = 1000\<rparr>],
               users = [\<lparr>u_phone = Some ''09121234567'', u_role = ''USER''\<rparr>],
               apiKeys = [\<lparr>k_userId = 0, k_hash = ''key-1'', k_label = ''login''\<rparr>]\<rparr>)"
  by (simp add: twoCodes_state)
     (simp add: verifyOtp_def normalizePhone_sample findLatestLive_def isLive_def upt_0_2
      verifyAt_def Let_def)

lemma verify_second_of_two:
  "fst (verifyOtp (\<lambda>c. c) (verifyAt 3000 ''key-2'') ''+989121234567'' ''123456'' firstVerified) =
     Inr ((0, \<lparr>u_phone = Some ''09121234567'', u_role = ''USER''\<rparr>), ''key-2'')"
  by (simp add: firstVerified_def verify_first_of_two)
     (simp add: verifyOtp_def normalizePhone_sample findLatestLive_def isLive_def upt_0_2
      verifyAt_def Let_def)

lemma verify_one:
  "verifyOtp (\<lambda>c. c) (verifyAt 2000 ''key-1'') ''+989121234567'' ''123456'' oneCode =
     (Inr ((0, \<lparr>u_phone = Some ''09121234567'', u_role = ''USER''\<rparr>), ''key-1''),
      \<lparr>rate = [''otp:09121234567'' \<mapsto> \<lparr>count = 1, windowStart = 0\<rparr>],
               otpCodes = [\<lparr>o_phone = ''09121234567'', codeHash = ''123456'', expiresAt = 120000,
                            attempts = 1, usedAt = Some 2000, o_createdAt = 0\<rparr>],
               users = [\<lparr>u_phone = Some ''09121234567'', u_role = ''USER''\<rparr>],
               apiKeys = [\<lparr>k_userId = 0, k_hash = ''key-1'', k_label = ''login''\<rparr>]\<rparr>)"
  by (simp add: oneCode_state)
     (simp add: verifyOtp_def normalizePhone_sample findLatestLive_def isLive_def
      verifyAt_def Let_def)

theorem otp_round_trip_witness:
  "fst (verifyOtp (\<lambda>c. c) (verifyAt 2000 ''key-1'') ''+989121234567'' ''123456'' oneCode)
     = Inr ((0, \<lparr>u_phone = Some ''09121234567'', u_role = ''USER''\<rparr>), ''key-1'')
   \<and> usedAt (otpCodes (snd (verifyOtp (\<lambda>c. c) (verifyAt 2000 ''key-1'') ''+989121234567'' ''123456'' oneCode)) ! 0)
     = Some 2000
   \<and> (fst (verifyOtp (\<lambda>c. c) (verifyAt 3000 ''key-2'') ''+989121234567'' ''123456''
          (snd (verifyOtp (\<lambda>c. c) (verifyAt 2000 ''key-1'') ''+989121234567'' ''123456'' oneCode)))
         = Inl (Error ''OTP not found or expired'')
       \<or> fst (verifyOtp (\<lambda>c. c) (verifyAt 3000 ''key-2'') ''+989121234567'' ''123456''
          (snd (verifyOtp (\<lambda>c. c) (verifyAt 2000 ''key-1'') ''+989121234567'' ''123456'' oneCode)))
         = Inl (Error ''Invalid OTP code''))"
proof -
  have h1: "fst (requestOtp authConfig (\<lambda>c. c) (otpAt 0 ''123456'') ''+989121234567'' emptyAuth) = Inr ()"
    by (simp add: request_first)
  have h2: "\<forall>r\<in>set (otpCodes emptyAuth). o_phone r = normalizePhone ''+989121234567''
      \<longrightarrow> o_createdAt r < createdNow (otpAt 0 ''123456'')"
    by (simp add: emptyAuth_def)
  have h3: "queryNow (verifyAt 2000 ''key-1'') < expiryNow (otpAt 0 ''123456'') + OTP_EXP_MIN authConfig * 60000"
    by (simp add: verifyAt_def otpAt_def authConfig_def)
  have h4: "\<forall>r\<in>set (otpCodes emptyAuth). isLive (normalizePhone ''+989121234567'') (queryNow (verifyAt 3000 ''key-2'')) r
      \<longrightarrow> codeHash r \<noteq> (\<lambda>c. c) (randCode (otpAt 0 ''123456''))"
    by (simp add: emptyAuth_def)
  have c: "randCode (otpAt 0 ''123456'') = ''123456''" "usedNow (verifyAt 2000 ''key-1'') = 2000"
      "length (otpCodes emptyAuth) = 0"
    by (simp_all add: otpAt_def verifyAt_def emptyAuth_def)
  note r = otp_round_trip[where h = "\<lambda>c. c", OF h1 h2 h3 h4, unfolded Let_def c, folded oneCode_def]
  from r have used: "usedAt (otpCodes (snd (verifyOtp (\<lambda>c. c) (verifyAt 2000 ''key-1'') ''+989121234567'' ''123456'' oneCode)) ! 0)
     = Some 2000"
    by (elim conjE)
  from r have second: "fst (verifyOtp (\<lambda>c. c) (verifyAt 3000 ''key-2'') ''+989121234567'' ''123456''
          (snd (verifyOtp (\<lambda>c. c) (verifyAt 2000 ''key-1'') ''+989121234567'' ''123456'' oneCode)))
         = Inl (Error ''OTP not found or expired'')
       \<or> fst (verifyOtp (\<lambda>c. c) (verifyAt 3000 ''key-2'') ''+989121234567'' ''123456''
          (snd (verifyOtp (\<lambda>c. c) (verifyAt 2000 ''key-1'') ''+989121234567'' ''123456'' oneCode)))
         = Inl (Error ''Invalid OTP code'')"
    by (elim conjE)
  have first: "fst (verifyOtp (\<lambda>c. c) (verifyAt 2000 ''key-1'') ''+989121234567'' ''123456'' oneCode)
     = Inr ((0, \<lparr>u_phone = Some ''09121234567'', u_role = ''USER''\<rparr>), ''key-1'')"
    by (simp add: verify_one)
  from first used second show ?thesis by (intro conjI)
qed

text \<open>
  The second \<open>verifyOtp\<close> with the same code succeeds when an older, still unused and
  unexpired row of the phone holds the same digest: here the random source drew the same
  code for two requests, and the two verifications consume one row each.
\<close>

theorem otp_round_trip_counterexample:
  "fst (requestOtp authConfig (\<lambda>c. c) (otpAt 1000 ''123456'') ''+989121234567'' oneCode) = Inr ()
   \<and> fst (verifyOtp (\<lambda>c. c) (verifyAt 2000 ''key-1'') ''+989121234567'' ''123456'' twoCodes)
       = Inr ((0, \<lparr>u_phone = Some ''09121234567'', u_role = ''USER''\<rparr>), ''key-1'')
   \<and> fst (verifyOtp (\<lambda>c. c) (verifyAt 3000 ''key-2'') ''+989121234567'' ''123456'' firstVerified)
       = Inr ((0, \<lparr>u_phone = Some ''09121234567'', u_role = ''USER''\<rparr>), ''key-2'')"
  by (simp add: request_second verify_first_of_two verify_second_of_two)

theorem normalizePhone_spellings_witness:
  "normalizePhone '' +989121234567 '' = ''09121234567''
   \<and> normalizePhone '' 09121234567 '' = ''09121234567''
   \<and> (\<exists>uid. fst (verifyOtp (\<lambda>c. c) (verifyAt 2000 ''key-1'') '' 09121234567 '' ''123456''
                 (snd (requestOtp authConfig (\<lambda>c. c) (otpAt 0 ''123456'') '' +989121234567 '' emptyAuth)))
          = Inr ((uid, users (snd (verifyOtp (\<lambda>c. c) (verifyAt 2000 ''key-1'') '' 09121234567 '' ''123456''
                 (snd (requestOtp authConfig (\<lambda>c. c) (otpAt 0 ''123456'') '' +989121234567 '' emptyAuth)))) ! uid),
                 ''key-1''))
   \<and> fst (verifyOtp (\<lambda>c. c) (verifyAt 2000 ''key-1'') '' 09121234567 '' ''123456''
                 (snd (requestOtp authConfig (\<lambda>c. c) (otpAt 0 ''123456'') '' +989121234567 '' emptyAuth)))
       = Inr ((0, \<lparr>u_phone = Some ''09121234567'', u_role = ''USER''\<rparr>), ''key-1'')"
proof -
  have ws: "\<forall>c\<in>set '' ''. isWhiteSpace c"
    by (simp add: isWhiteSpace_def)
  have nl: "''9121234567'' = [] \<or> \<not> isWhiteSpace (last ''9121234567'')"
    by (simp add: isWhiteSpace_def)
  note t = normalizePhone_spellings[where pre = "'' ''" and post = "'' ''" and number = "''9121234567''"
      and cfg = authConfig and h = "\<lambda>c. c" and io = "otpAt 0 ''123456''" and s = emptyAuth
      and v = "verifyAt 2000 ''key-1''" and code = "''123456''", OF ws ws nl, simplified append.simps]
  from t have n1: "normalizePhone '' +989121234567 '' = ''09121234567''"
    by (elim conjE)
  from t have n2: "normalizePhone '' 09121234567 '' = ''09121234567''"
    by (elim conjE)
  have r: "requestOtp authConfig (\<lambda>c. c) (otpAt 0 ''123456'') '' +989121234567 '' emptyAuth
      = requestOtp authConfig (\<lambda>c. c) (otpAt 0 ''123456'') ''+989121234567'' emptyAuth"
    by (rule requestOtp_by_normal_form) (simp only: n1 normalizePhone_sample)
  have ok: "fst (requestOtp authConfig (\<lambda>c. c) (otpAt 0 ''123456'') '' +989121234567 '' emptyAuth) = Inr ()"
    by (simp only: r request_first fst_conv)
  have newest: "\<forall>r\<in>set (otpCodes emptyAuth). o_phone r = ''09121234567''
      \<longrightarrow> o_createdAt r < createdNow (otpAt 0 ''123456'')"
    by (simp add: emptyAuth_def)
  have before: "queryNow (verifyAt 2000 ''key-1'') < expiryNow (otpAt 0 ''123456'') + OTP_EXP_MIN authConfig * 60000"
    by (simp add: verifyAt_def otpAt_def authConfig_def)
  have c: "randCode (otpAt 0 ''123456'') = ''123456''" "apiKeyPlain (verifyAt 2000 ''key-1'') = ''key-1''"
    by (simp_all add: otpAt_def verifyAt_def)
  from t ok newest before have ex: "\<exists>uid. fst (verifyOtp (\<lambda>c. c) (verifyAt 2000 ''key-1'') '' 09121234567 '' ''123456''
                 (snd (requestOtp authConfig (\<lambda>c. c) (otpAt 0 ''123456'') '' +989121234567 '' emptyAuth)))
          = Inr ((uid, users (snd (verifyOtp (\<lambda>c. c) (verifyAt 2000 ''key-1'') '' 09121234567 '' ''123456''
                 (snd (requestOtp authConfig (\<lambda>c. c) (otpAt 0 ''123456'') '' +989121234567 '' emptyAuth)))) ! uid),
                 ''key-1'')"
    unfolding c by blast
  have v: "verifyOtp (\<lambda>c. c) (verifyAt 2000 ''key-1'') '' 09121234567 '' ''123456'' oneCode
      = verifyOtp (\<lambda>c. c) (verifyAt 2000 ''key-1'') ''+989121234567'' ''123456'' oneCode"
    by (rule verifyOtp_by_normal_form) (simp only: n2 normalizePhone_sample)
  have explicit: "fst (verifyOtp (\<lambda>c. c) (verifyAt 2000 ''key-1'') '' 09121234567 '' ''123456''
                 (snd (requestOtp authConfig (\<lambda>c. c) (otpAt 0 ''123456'') '' +989121234567 '' emptyAuth)))
       = Inr ((0, \<lparr>u_phone = Some ''09121234567'', u_role = ''USER''\<rparr>), ''key-1'')"
    by (simp only: r oneCode_def[symmetric] v verify_one fst_conv)
  from n1 n2 ex explicit show ?thesis by (intro conjI)
qed


end
